theory Spec2Isabelle
  imports Complex_Main
begin

section \<open>Python values and errors\<close>

text \<open>
  The exceptions that the modelled code of \<^verbatim>\<open>engine.py\<close> can raise. A raise is a
  value \<open>Inl\<close> of the result; the training loop returns the state reached at the
  raise together with the exception, so that what happened before it can be read off.
\<close>

datatype py_error = ZeroDivisionError | IndexError | AssertionError | ValueError | RuntimeError

text \<open>
  A Python float as far as \<^verbatim>\<open>math.isfinite\<close> can tell: a finite number or one of
  the three special values. Arithmetic on finite values is the arithmetic of the reals;
  rounding is not modelled.
\<close>

datatype pyfloat = Fin real | PosInf | NegInf | NaN

fun isfinite :: "pyfloat \<Rightarrow> bool" where
  "isfinite (Fin x) = True"
| "isfinite PosInf = False"
| "isfinite NegInf = False"
| "isfinite NaN = False"

text \<open>\<^verbatim>\<open>loss /= update_freq\<close> for a nonzero integer divisor.\<close>

fun fdiv :: "pyfloat \<Rightarrow> int \<Rightarrow> pyfloat" where
  "fdiv (Fin x) k = Fin (x / real_of_int k)"
| "fdiv PosInf k = (if 0 < k then PosInf else NegInf)"
| "fdiv NegInf k = (if 0 < k then NegInf else PosInf)"
| "fdiv NaN k = NaN"

text \<open>
  \<^verbatim>\<open>xs[i]\<close> on a list or a one-dimensional array: a negative index counts from
  the end, and an index outside \<open>-len .. len - 1\<close> raises IndexError.
\<close>

definition py_index :: "'a list \<Rightarrow> int \<Rightarrow> py_error + 'a" where
  "py_index xs i =
     (if 0 \<le> i \<and> i < int (length xs) then Inr (xs ! nat i)
      else if i < 0 \<and> - int (length xs) \<le> i then Inr (xs ! nat (int (length xs) + i))
      else Inl IndexError)"

section \<open>The training loop: \<^verbatim>\<open>train_one_epoch\<close>\<close>

subsection \<open>State\<close>

text \<open>One entry of \<^verbatim>\<open>optimizer.param_groups\<close>, with the three keys the loop uses.\<close>

record param_group =
  lr :: real
  lr_scale :: real
  weight_decay :: real

text \<open>A value handed to a meter or a logger: a number or \<^verbatim>\<open>None\<close>.\<close>

datatype mval = Num pyfloat | NoneVal

text \<open>
  The calls that the loop makes on its collaborators (data loader, model, optimizer, loss
  scaler, EMA model, metric logger, log writer, wandb), in the order it makes them:
  \<^item> \<open>Fetch\<close>: the next batch is drawn from the data loader (line 44);
  \<^item> \<open>ZeroGrad\<close>: \<^verbatim>\<open>optimizer.zero_grad()\<close>;
  \<^item> \<open>Forward\<close>: the model and the criterion are applied (lines 57 to 71);
  \<^item> \<open>Backward l\<close>: \<^verbatim>\<open>loss.backward()\<close> on the loss \<open>l\<close>;
  \<^item> \<open>LossScaler l u\<close>: \<^verbatim>\<open>loss_scaler(loss, optimizer, ..., update_grad=u)\<close>;
  \<^item> \<open>OptStep\<close>: \<^verbatim>\<open>optimizer.step()\<close>;
  \<^item> \<open>EmaUpdate\<close>: \<^verbatim>\<open>model_ema.update(model)\<close>;
  \<^item> \<open>Meter k v\<close>: \<^verbatim>\<open>metric_logger.update(k=v)\<close>;
  \<^item> \<open>LogWriter k v h\<close>: \<^verbatim>\<open>log_writer.update(k=v, head=h)\<close>, and \<open>LogSetStep\<close>:
    \<^verbatim>\<open>log_writer.set_step()\<close>;
  \<^item> \<open>Wandb kvs c\<close>: \<^verbatim>\<open>wandb_logger._wandb.log(kvs, commit=c)\<close>;
  \<^item> \<open>Synchronize\<close>: \<^verbatim>\<open>metric_logger.synchronize_between_processes()\<close>.
\<close>

datatype event =
    Fetch
  | ZeroGrad
  | Forward
  | Backward pyfloat
  | LossScaler pyfloat bool
  | OptStep
  | EmaUpdate
  | Meter string mval
  | LogWriter string mval string
  | LogSetStep
  | Wandb "(string \<times> mval) list" bool
  | Synchronize

text \<open>
  The state of the loop: the parameter groups of the optimizer, which the loop assigns to,
  and the calls made so far, the latest last.
\<close>

record tstate =
  groups :: "param_group list"
  trace :: "event list"

text \<open>The arguments of \<^verbatim>\<open>train_one_epoch\<close> that steer its control flow.\<close>

record config =
  use_amp :: bool
  has_model_ema :: bool
  has_mixup_fn :: bool
  has_log_writer :: bool
  has_wandb_logger :: bool
  start_steps :: int
  lr_schedule_values :: "real list option"
  wd_schedule_values :: "real list option"
  num_training_steps_per_epoch :: int
  update_freq :: int

text \<open>
  What the model, the criterion and the loss scaler compute for one batch: the value of
  \<^verbatim>\<open>loss.item()\<close>, the batch accuracy and the gradient norm. They are external, so
  the loop takes them from a function of the current state and the batch.
\<close>

record outcome =
  loss_item :: pyfloat
  batch_acc :: real
  grad_norm :: real

subsection \<open>Scheduling (lines 48 to 55)\<close>

text \<open>The condition of line 50; \<^verbatim>\<open>and\<close> binds tighter than \<^verbatim>\<open>or\<close>.\<close>

definition refresh_due :: "config \<Rightarrow> int \<Rightarrow> bool" where
  "refresh_due cfg data_iter_step =
     (lr_schedule_values cfg \<noteq> None \<or>
      (wd_schedule_values cfg \<noteq> None \<and> data_iter_step mod update_freq cfg = 0))"

text \<open>
  The body of the loop over the parameter groups (lines 52 to 55) for one group. On an
  IndexError the group is returned as it is at the raise.
\<close>

definition set_lr :: "real list option \<Rightarrow> int \<Rightarrow> param_group \<Rightarrow> (py_error \<times> param_group) + param_group" where
  "set_lr lrt it g =
     (case lrt of
        None \<Rightarrow> Inr g
      | Some t \<Rightarrow> (case py_index t it of
                    Inl e \<Rightarrow> Inl (e, g)
                  | Inr v \<Rightarrow> Inr (g\<lparr>lr := v * lr_scale g\<rparr>)))"

definition set_wd :: "real list option \<Rightarrow> int \<Rightarrow> param_group \<Rightarrow> (py_error \<times> param_group) + param_group" where
  "set_wd wdt it g =
     (case wdt of
        None \<Rightarrow> Inr g
      | Some t \<Rightarrow> (if 0 < weight_decay g
                   then (case py_index t it of
                           Inl e \<Rightarrow> Inl (e, g)
                         | Inr v \<Rightarrow> Inr (g\<lparr>weight_decay := v\<rparr>))
                   else Inr g))"

definition set_group :: "real list option \<Rightarrow> real list option \<Rightarrow> int \<Rightarrow> param_group \<Rightarrow> (py_error \<times> param_group) + param_group" where
  "set_group lrt wdt it g =
     (case set_lr lrt it g of
        Inl e \<Rightarrow> Inl e
      | Inr g1 \<Rightarrow> set_wd wdt it g1)"

text \<open>The loop of line 51; the groups before the raising one stay updated.\<close>

fun refresh_groups :: "real list option \<Rightarrow> real list option \<Rightarrow> int \<Rightarrow> param_group list \<Rightarrow> (py_error \<times> param_group list) + param_group list" where
  "refresh_groups lrt wdt it [] = Inr []"
| "refresh_groups lrt wdt it (g # gs) =
     (case set_group lrt wdt it g of
        Inl (e, g1) \<Rightarrow> Inl (e, g1 # gs)
      | Inr g1 \<Rightarrow> (case refresh_groups lrt wdt it gs of
                     Inl (e, gs1) \<Rightarrow> Inl (e, g1 # gs1)
                   | Inr gs1 \<Rightarrow> Inr (g1 # gs1)))"

definition scheduling :: "config \<Rightarrow> int \<Rightarrow> int \<Rightarrow> tstate \<Rightarrow> (py_error \<times> tstate) + tstate" where
  "scheduling cfg data_iter_step it s =
     (if refresh_due cfg data_iter_step
      then (case refresh_groups (lr_schedule_values cfg) (wd_schedule_values cfg) it (groups s) of
              Inl (e, gs) \<Rightarrow> Inl (e, s\<lparr>groups := gs\<rparr>)
            | Inr gs \<Rightarrow> Inr (s\<lparr>groups := gs\<rparr>))
      else Inr s)"

subsection \<open>Accumulation and optimizer step (lines 77 to 95)\<close>

text \<open>The condition \<^verbatim>\<open>(data_iter_step + 1) % update_freq == 0\<close> of lines 83, 84 and 91.\<close>

definition step_due :: "config \<Rightarrow> int \<Rightarrow> bool" where
  "step_due cfg data_iter_step = ((data_iter_step + 1) mod update_freq cfg = 0)"

text \<open>
  The calls of lines 77 to 95 for a finite loss: under mixed precision the loss scaler
  backpropagates and, with \<^verbatim>\<open>update_grad\<close>, steps the optimizer; in full precision the
  loop does both itself. The loss has been divided by \<^verbatim>\<open>update_freq\<close> before.
\<close>

definition accumulate :: "config \<Rightarrow> int \<Rightarrow> pyfloat \<Rightarrow> event list" where
  "accumulate cfg data_iter_step loss =
     (if use_amp cfg
      then [LossScaler (fdiv loss (update_freq cfg)) (step_due cfg data_iter_step)] @
           (if step_due cfg data_iter_step
            then [ZeroGrad] @ (if has_model_ema cfg then [EmaUpdate] else [])
            else [])
      else [Backward (fdiv loss (update_freq cfg))] @
           (if step_due cfg data_iter_step
            then [OptStep, ZeroGrad] @ (if has_model_ema cfg then [EmaUpdate] else [])
            else []))"

subsection \<open>Recording (lines 99 to 141)\<close>

text \<open>The loops of lines 105 to 116 over the parameter groups.\<close>

definition min_lr_of :: "param_group list \<Rightarrow> real" where
  "min_lr_of gs = foldl (\<lambda>m g. min m (lr g)) 10 gs"

definition max_lr_of :: "param_group list \<Rightarrow> real" where
  "max_lr_of gs = foldl (\<lambda>m g. max m (lr g)) 0 gs"

definition weight_decay_value_of :: "param_group list \<Rightarrow> mval" where
  "weight_decay_value_of gs =
     foldl (\<lambda>w g. if 0 < weight_decay g then Num (Fin (weight_decay g)) else w) NoneVal gs"

text \<open>
  The calls on the metric logger, the log writer and wandb. \<^verbatim>\<open>loss_value\<close> was read at
  line 71, before the division; \<^verbatim>\<open>class_acc\<close> is \<^verbatim>\<open>None\<close> with a mixup function, and
  \<^verbatim>\<open>if class_acc:\<close> holds for a number other than 0.
\<close>

definition recorded :: "config \<Rightarrow> int \<Rightarrow> param_group list \<Rightarrow> outcome \<Rightarrow> event list" where
  "recorded cfg it gs out =
     (let loss_value = Num (loss_item out);
          class_acc = (if has_mixup_fn cfg then NoneVal else Num (Fin (batch_acc out)));
          min_lr = Num (Fin (min_lr_of gs));
          max_lr = Num (Fin (max_lr_of gs));
          weight_decay_value = weight_decay_value_of gs;
          gn = Num (Fin (grad_norm out))
      in [Meter ''loss'' loss_value, Meter ''class_acc'' class_acc,
          Meter ''lr'' max_lr, Meter ''min_lr'' min_lr,
          Meter ''weight_decay'' weight_decay_value] @
         (if use_amp cfg then [Meter ''grad_norm'' gn] else []) @
         (if has_log_writer cfg
          then [LogWriter ''loss'' loss_value ''loss'', LogWriter ''class_acc'' class_acc ''loss'',
                LogWriter ''lr'' max_lr ''opt'', LogWriter ''min_lr'' min_lr ''opt'',
                LogWriter ''weight_decay'' weight_decay_value ''opt''] @
               (if use_amp cfg then [LogWriter ''grad_norm'' gn ''opt''] else []) @
               [LogSetStep]
          else []) @
         (if has_wandb_logger cfg
          then [Wandb [(''Rank-0 Batch Wise/train_loss'', loss_value),
                       (''Rank-0 Batch Wise/train_max_lr'', max_lr),
                       (''Rank-0 Batch Wise/train_min_lr'', min_lr)] False] @
               (if \<not> has_mixup_fn cfg \<and> batch_acc out \<noteq> 0
                then [Wandb [(''Rank-0 Batch Wise/train_class_acc'', class_acc)] False] else []) @
               (if use_amp cfg
                then [Wandb [(''Rank-0 Batch Wise/train_grad_norm'', gn)] False] else []) @
               [Wandb [(''Rank-0 Batch Wise/global_train_step'', Num (Fin (real_of_int it)))] True]
          else []))"

subsection \<open>One iteration of the loop body (lines 45 to 141)\<close>

text \<open>Appending calls to the trace.\<close>

definition emit :: "event list \<Rightarrow> tstate \<Rightarrow> tstate" where
  "emit evs s = s\<lparr>trace := trace s @ evs\<rparr>"

text \<open>The test of line 46 on \<^verbatim>\<open>step = data_iter_step // update_freq\<close>.\<close>

definition skipped :: "config \<Rightarrow> int \<Rightarrow> bool" where
  "skipped cfg data_iter_step =
     (num_training_steps_per_epoch cfg \<le> data_iter_step div update_freq cfg)"

text \<open>
  The body of the loop. \<^verbatim>\<open>data_iter_step // update_freq\<close> raises ZeroDivisionError for
  \<^verbatim>\<open>update_freq = 0\<close>; for other integers Python's floor division and modulo are
  \<open>div\<close> and \<open>mod\<close> on \<open>int\<close>. The assertion of line 75 raises AssertionError.
\<close>

definition train_step :: "config \<Rightarrow> (tstate \<Rightarrow> 'b \<Rightarrow> outcome) \<Rightarrow> int \<Rightarrow> 'b \<Rightarrow> tstate \<Rightarrow> (py_error \<times> tstate) + tstate" where
  "train_step cfg fwd data_iter_step batch s =
     (if update_freq cfg = 0 then Inl (ZeroDivisionError, s)
      else if skipped cfg data_iter_step then Inr s
      else
        (let it = start_steps cfg + data_iter_step div update_freq cfg in
         case scheduling cfg data_iter_step it s of
           Inl e \<Rightarrow> Inl e
         | Inr s1 \<Rightarrow>
             (let out = fwd s1 batch; s2 = emit [Forward] s1 in
              if \<not> isfinite (loss_item out) then Inl (AssertionError, s2)
              else Inr (emit (accumulate cfg data_iter_step (loss_item out) @
                              recorded cfg it (groups s2) out) s2))))"

subsection \<open>The loop (line 44) and the function\<close>

text \<open>
  The loop over \<^verbatim>\<open>enumerate(...)\<close> of the batches, and the function: the gradients are
  cleared before the loop (line 42) and the meters synchronized after it (line 145).
\<close>

fun train_loop :: "config \<Rightarrow> (tstate \<Rightarrow> 'b \<Rightarrow> outcome) \<Rightarrow> int \<Rightarrow> 'b list \<Rightarrow> tstate \<Rightarrow> (py_error \<times> tstate) + tstate" where
  "train_loop cfg fwd data_iter_step [] s = Inr s"
| "train_loop cfg fwd data_iter_step (batch # rest) s =
     (case train_step cfg fwd data_iter_step batch (emit [Fetch] s) of
        Inl e \<Rightarrow> Inl e
      | Inr s1 \<Rightarrow> train_loop cfg fwd (data_iter_step + 1) rest s1)"

definition train_one_epoch :: "config \<Rightarrow> (tstate \<Rightarrow> 'b \<Rightarrow> outcome) \<Rightarrow> 'b list \<Rightarrow> param_group list \<Rightarrow> (py_error \<times> tstate) + tstate" where
  "train_one_epoch cfg fwd data_loader gs =
     (case train_loop cfg fwd 0 data_loader \<lparr>groups = gs, trace = [ZeroGrad]\<rparr> of
        Inl e \<Rightarrow> Inl e
      | Inr s \<Rightarrow> Inr (emit [Synchronize] s))"

subsection \<open>Observations on a trace\<close>

text \<open>
  An optimizer step is \<^verbatim>\<open>optimizer.step()\<close> in full precision and the call of the
  loss scaler with \<^verbatim>\<open>update_grad=True\<close> under mixed precision.
\<close>

fun is_opt_step :: "event \<Rightarrow> bool" where
  "is_opt_step OptStep = True"
| "is_opt_step (LossScaler l u) = u"
| "is_opt_step e = False"

definition opt_steps :: "event list \<Rightarrow> nat" where
  "opt_steps evs = length (filter is_opt_step evs)"

text \<open>The loss values handed to the meters and loggers, and the loss values backpropagated.\<close>

fun loss_reported :: "event \<Rightarrow> mval list" where
  "loss_reported (Meter n v) = (if n = ''loss'' then [v] else [])"
| "loss_reported (LogWriter n v h) = (if n = ''loss'' then [v] else [])"
| "loss_reported (Wandb kvs c) = map snd (filter (\<lambda>kv. fst kv = ''Rank-0 Batch Wise/train_loss'') kvs)"
| "loss_reported e = []"

fun loss_backpropagated :: "event \<Rightarrow> pyfloat list" where
  "loss_backpropagated (Backward l) = [l]"
| "loss_backpropagated (LossScaler l u) = [l]"
| "loss_backpropagated e = []"

section \<open>Inference: \<^verbatim>\<open>prediction\<close>\<close>

subsection \<open>The ground-truth label (lines 273 and 274)\<close>

text \<open>
  \<^verbatim>\<open>str.split\<close> with a separator of one character: the pieces between the
  separators, at least one piece. Strings are lists of bytes here, so a file name is taken
  to be ASCII.
\<close>

fun split_on :: "char \<Rightarrow> string \<Rightarrow> string list" where
  "split_on d [] = [[]]"
| "split_on d (c # cs) =
     (if c = d then [] # split_on d cs
      else (case split_on d cs of
              w # ws \<Rightarrow> (c # w) # ws
            | [] \<Rightarrow> [[c]]))"

text \<open>\<^verbatim>\<open>int(c)\<close> for a string of one character: a decimal digit, or a ValueError.\<close>

definition py_int_char :: "char \<Rightarrow> py_error + int" where
  "py_int_char c =
     (let n = (of_char c :: nat)
      in if 48 \<le> n \<and> n \<le> 57 then Inr (int n - 48) else Inl ValueError)"

text \<open>
  \<^verbatim>\<open>target = int(spltnm[0][1]) if spltnm[0][0] == 't' else -1\<close>, the condition first;
  each index may raise IndexError.
\<close>

definition parse_target :: "string \<Rightarrow> py_error + int" where
  "parse_target nm =
     (case py_index (split_on CHR ''_'' nm) 0 of
        Inl e \<Rightarrow> Inl e
      | Inr s0 \<Rightarrow>
          (case py_index s0 0 of
             Inl e \<Rightarrow> Inl e
           | Inr c0 \<Rightarrow>
               if c0 = CHR ''t''
               then (case py_index s0 1 of Inl e \<Rightarrow> Inl e | Inr c1 \<Rightarrow> py_int_char c1)
               else Inr (- 1)))"

subsection \<open>The records (lines 263 to 285)\<close>

text \<open>
  A record is the tuple \<^verbatim>\<open>(pred, conf, target, path)\<close>. The model's forward pass is
  external: \<open>infer\<close> gives the predicted class and the confidence of a file.
\<close>

type_synonym prediction_record = "int \<times> real \<times> int \<times> string"

fun collect_results :: "(string \<Rightarrow> int \<times> real) \<Rightarrow> string list \<Rightarrow> py_error + prediction_record list" where
  "collect_results infer [] = Inr []"
| "collect_results infer (nm # rest) =
     (case parse_target nm of
        Inl e \<Rightarrow> Inl e
      | Inr target \<Rightarrow>
          (case collect_results infer rest of
             Inl e \<Rightarrow> Inl e
           | Inr result \<Rightarrow> Inr ((fst (infer nm), snd (infer nm), target, nm) # result)))"

subsection \<open>The statistical report (lines 301 to 329)\<close>

text \<open>
  The lists that the plots are drawn from. The source leaves \<^verbatim>\<open>ifn\<close> and \<^verbatim>\<open>ifp\<close>
  unassigned in the branch without ground truth and does not read them there; they are
  empty in the model. \<open>four_buckets\<close> tells which branch of line 302 ran.
\<close>

record report =
  four_buckets :: bool
  conf_TN :: "real list"
  conf_TP :: "real list"
  conf_FN :: "real list"
  conf_FP :: "real list"
  itn :: "nat list"
  itp :: "nat list"
  ifn :: "nat list"
  ifp :: "nat list"

text \<open>
  The list comprehensions of lines 303 to 308 and 320 to 329, for a condition on the
  predicted class and the label.
\<close>

definition confs :: "(int \<Rightarrow> int \<Rightarrow> bool) \<Rightarrow> prediction_record list \<Rightarrow> real list" where
  "confs cond result = map (\<lambda>(p, c, t, f). c) (filter (\<lambda>(p, c, t, f). cond p t) result)"

definition idxs :: "(int \<Rightarrow> int \<Rightarrow> bool) \<Rightarrow> prediction_record list \<Rightarrow> nat list" where
  "idxs cond result = filter (\<lambda>i. case result ! i of (p, c, t, f) \<Rightarrow> cond p t) [0..<length result]"

text \<open>
  Line 302 takes the column of labels of \<^verbatim>\<open>np.array(result)\<close> and sums it; on an empty
  list the array has one axis of length 0 and the index raises IndexError.
\<close>

definition pred_eval_report :: "prediction_record list \<Rightarrow> py_error + report" where
  "pred_eval_report result =
     (if result = [] then Inl IndexError
      else if sum_list (map (\<lambda>(p, c, t, f). t) result) < 0
      then Inr \<lparr>four_buckets = False,
                conf_TN = confs (\<lambda>p t. p = 0) result,
                conf_TP = confs (\<lambda>p t. p = 1) result,
                conf_FN = [],
                conf_FP = [],
                itn = idxs (\<lambda>p t. p = 0) result,
                itp = idxs (\<lambda>p t. p = 1) result,
                ifn = [],
                ifp = []\<rparr>
      else Inr \<lparr>four_buckets = True,
                conf_TN = confs (\<lambda>p t. p = t \<and> p = 0) result,
                conf_TP = confs (\<lambda>p t. p = t \<and> p = 1) result,
                conf_FN = confs (\<lambda>p t. p \<noteq> t \<and> p = 0) result,
                conf_FP = confs (\<lambda>p t. p \<noteq> t \<and> p = 1) result,
                itn = idxs (\<lambda>p t. p = t \<and> p = 0) result,
                itp = idxs (\<lambda>p t. p = t \<and> p = 1) result,
                ifn = idxs (\<lambda>p t. p \<noteq> t \<and> p = 0) result,
                ifp = idxs (\<lambda>p t. p \<noteq> t \<and> p = 1) result\<rparr>)"

text \<open>A record has a known ground truth when its label is not the sentinel \<open>- 1\<close>.\<close>

definition known_truth :: "prediction_record \<Rightarrow> bool" where
  "known_truth x = (case x of (p, c, t, f) \<Rightarrow> t \<noteq> - 1)"

section \<open>Evaluation: \<^verbatim>\<open>evaluate\<close>\<close>

text \<open>
  Modelled from the spec: \<^verbatim>\<open>utils.MetricLogger\<close> and its meters are not among the
  sources. Following sections 3 and 4.1 of the specification, the meters are a mapping from
  the metric name to the weighted samples recorded under it; a name has an entry once it has
  been updated, and a metric that was never recorded is absent.
\<close>

type_synonym meters = "string \<rightharpoonup> (pyfloat \<times> nat) list"

definition meter_update :: "string \<Rightarrow> pyfloat \<Rightarrow> nat \<Rightarrow> meters \<Rightarrow> meters" where
  "meter_update k v n m = m(k \<mapsto> (case m k of None \<Rightarrow> [] | Some us \<Rightarrow> us) @ [(v, n)])"

text \<open>
  What the loop reads of one batch: the scores \<^verbatim>\<open>output\<close> that the model computes
  (one row per sample), the labels \<^verbatim>\<open>target\<close> and the value of the loss. Writing the
  annotated images (lines 199 to 214) touches no meter; it is taken to succeed and is left
  out.
\<close>

record eval_batch =
  output_scores :: "real list list"
  target :: "int list"
  loss :: pyfloat

text \<open>\<^verbatim>\<open>torch.masked_select\<close> with the mask \<^verbatim>\<open>target == class_id\<close>, row by row.\<close>

definition masked_rows :: "int \<Rightarrow> int list \<Rightarrow> 'a list \<Rightarrow> 'a list" where
  "masked_rows class_id tgt xs = map snd (filter (\<lambda>(t, x). t = class_id) (zip tgt xs))"

text \<open>\<^verbatim>\<open>.view(-1, k)\<close> of a flat tensor: rows of \<open>k\<close> elements, or a RuntimeError.\<close>

definition py_view :: "nat \<Rightarrow> 'a list \<Rightarrow> py_error + 'a list list" where
  "py_view k xs =
     (if k = 0 \<or> length xs mod k \<noteq> 0 then Inl RuntimeError
      else Inr (map (\<lambda>i. take k (drop (i * k) xs)) [0..<length xs div k]))"

text \<open>
  The loop over \<^verbatim>\<open>class_to_idx.items()\<close> (lines 217 to 227); \<^verbatim>\<open>accuracy\<close> is the
  function of timm, which returns the top-1 and top-5 accuracies.
\<close>

fun per_class_metrics :: "(real list list \<Rightarrow> int list \<Rightarrow> real \<times> real) \<Rightarrow> nat \<Rightarrow> eval_batch \<Rightarrow> (string \<times> int) list \<Rightarrow> meters \<Rightarrow> py_error + meters" where
  "per_class_metrics accuracy k b [] m = Inr m"
| "per_class_metrics accuracy k b ((class_name, class_id) # rest) m =
     (let target_class = filter (\<lambda>t. t = class_id) (target b);
          data_size = length target_class
      in if 0 < data_size
         then (case py_view k (concat (masked_rows class_id (target b) (output_scores b))) of
                 Inl e \<Rightarrow> Inl e
               | Inr output_class \<Rightarrow>
                   per_class_metrics accuracy k b rest
                     (meter_update (''acc5_'' @ class_name)
                        (Fin (snd (accuracy output_class target_class))) data_size
                        (meter_update (''acc1_'' @ class_name)
                           (Fin (fst (accuracy output_class target_class))) data_size m)))
         else per_class_metrics accuracy k b rest m)"

text \<open>
  One iteration of the loop of line 169. The criterion raises when the batch sizes of
  scores and labels differ.
\<close>

definition evaluate_batch :: "(real list list \<Rightarrow> int list \<Rightarrow> real \<times> real) \<Rightarrow> (string \<times> int) list \<Rightarrow> eval_batch \<Rightarrow> meters \<Rightarrow> py_error + meters" where
  "evaluate_batch accuracy class_to_idx b m =
     (if length (output_scores b) \<noteq> length (target b) then Inl ValueError
      else
        (let batch_size = length (output_scores b);
             m1 = meter_update ''loss'' (loss b) 1 m;
             m2 = meter_update ''acc1'' (Fin (fst (accuracy (output_scores b) (target b)))) batch_size m1;
             m3 = meter_update ''acc5'' (Fin (snd (accuracy (output_scores b) (target b)))) batch_size m2
         in per_class_metrics accuracy (length class_to_idx) b class_to_idx m3))"

fun evaluate_loop :: "(real list list \<Rightarrow> int list \<Rightarrow> real \<times> real) \<Rightarrow> (string \<times> int) list \<Rightarrow> eval_batch list \<Rightarrow> meters \<Rightarrow> py_error + meters" where
  "evaluate_loop accuracy class_to_idx [] m = Inr m"
| "evaluate_loop accuracy class_to_idx (b # rest) m =
     (case evaluate_batch accuracy class_to_idx b m of
        Inl e \<Rightarrow> Inl e
      | Inr m1 \<Rightarrow> evaluate_loop accuracy class_to_idx rest m1)"

definition evaluate :: "(real list list \<Rightarrow> int list \<Rightarrow> real \<times> real) \<Rightarrow> (string \<times> int) list \<Rightarrow> eval_batch list \<Rightarrow> py_error + meters" where
  "evaluate accuracy class_to_idx data_loader = evaluate_loop accuracy class_to_idx data_loader Map.empty"

section \<open>Example inputs\<close>

text \<open>Concrete inputs, on which the theorems below are instantiated.\<close>

definition cfg_ex :: config where
  "cfg_ex = \<lparr>use_amp = False, has_model_ema = True, has_mixup_fn = False,
             has_log_writer = True, has_wandb_logger = False, start_steps = 0,
             lr_schedule_values = Some [3, 4], wd_schedule_values = Some [5, 6],
             num_training_steps_per_epoch = 2, update_freq = 2\<rparr>"

definition g_ex :: param_group where
  "g_ex = \<lparr>lr = 7, lr_scale = 2, weight_decay = 1\<rparr>"

definition s_ex :: tstate where
  "s_ex = \<lparr>groups = [g_ex], trace = [ZeroGrad]\<rparr>"

definition out_ok :: outcome where
  "out_ok = \<lparr>loss_item = Fin 8, batch_acc = 1, grad_norm = 0\<rparr>"

definition out_nan :: outcome where
  "out_nan = \<lparr>loss_item = NaN, batch_acc = 0, grad_norm = 0\<rparr>"

definition fwd_ex :: "tstate \<Rightarrow> outcome \<Rightarrow> outcome" where
  "fwd_ex s b = b"

definition classes_ex :: "(string \<times> int) list" where
  "classes_ex = [(''neg'', 0), (''pos'', 1)]"

definition batch_pos :: eval_batch where
  "batch_pos = \<lparr>output_scores = [[1, 3], [4, 2]], target = [1, 1], loss = Fin 1\<rparr>"

definition accuracy_sums :: "real list list \<Rightarrow> int list \<Rightarrow> real \<times> real" where
  "accuracy_sums rows tgt = (sum_list (concat rows), real_of_int (sum_list tgt))"

definition batch_mixed :: eval_batch where
  "batch_mixed = \<lparr>output_scores = [[1, 3], [4, 2], [5, 6]], target = [1, 0, 1], loss = Fin 1\<rparr>"

definition result_ex :: "prediction_record list" where
  "result_ex = [(1, 9, 1, ''t1_a.jpg''), (0, 8, 0, ''t0_b.jpg''), (0, 7, 1, ''t1_c.jpg''), (1, 6, 0, ''t0_d.jpg'')]"

definition result_mixed :: "prediction_record list" where
  "result_mixed = [(0, 9, 1, ''t1_a.jpg''), (0, 8, - 1, ''x_b.jpg'')]"


section \<open>Properties of the training loop\<close>

subsection \<open>Traces and the loop\<close>

lemmas ex_defs = cfg_ex_def fwd_ex_def out_ok_def out_nan_def s_ex_def g_ex_def

lemmas loop_defs = train_one_epoch_def train_step_def skipped_def
      scheduling_def refresh_due_def set_group_def set_lr_def set_wd_def py_index_def Let_def emit_def
      accumulate_def step_due_def recorded_def min_lr_of_def max_lr_of_def weight_decay_value_of_def

lemma py_index_in_range: "0 \<le> i \<Longrightarrow> i < int (length xs) \<Longrightarrow> py_index xs i = Inr (xs ! nat i)"
  by (simp add: py_index_def Let_def)

lemma py_index_beyond: "int (length xs) \<le> i \<Longrightarrow> py_index xs i = Inl IndexError"
  by (simp add: py_index_def Let_def)

lemma trace_emit: "trace (emit evs s) = trace s @ evs"
  by (simp add: emit_def)

lemma groups_emit: "groups (emit evs s) = groups s"
  by (simp add: emit_def)

lemma emit_emit: "emit ys (emit xs s) = emit (xs @ ys) s"
  by (simp add: emit_def)

lemma emit_Nil: "emit [] s = s"
  by (simp add: emit_def)

lemma scheduling_trace_Inr: "scheduling cfg i it s = Inr s1 \<Longrightarrow> trace s1 = trace s"
  by (auto simp: scheduling_def split: if_splits sum.splits prod.splits)

lemma scheduling_trace_Inl: "scheduling cfg i it s = Inl (e, s1) \<Longrightarrow> trace s1 = trace s"
  by (auto simp: scheduling_def split: if_splits sum.splits prod.splits)

lemma train_step_skipped: "update_freq cfg \<noteq> 0 \<Longrightarrow> skipped cfg i \<Longrightarrow> train_step cfg fwd i b s = Inr s"
  by (simp add: train_step_def)

lemma train_step_processed:
  assumes "train_step cfg fwd i b s = Inr s'" and "\<not> skipped cfg i"
  shows "\<exists>s1. scheduling cfg i (start_steps cfg + i div update_freq cfg) s = Inr s1 \<and>
           update_freq cfg \<noteq> 0 \<and> isfinite (loss_item (fwd s1 b)) \<and> groups s' = groups s1 \<and>
           trace s' = trace s @ [Forward] @ accumulate cfg i (loss_item (fwd s1 b)) @
                        recorded cfg (start_steps cfg + i div update_freq cfg) (groups s1) (fwd s1 b)"
  using assms
  by (auto simp: train_step_def Let_def emit_def scheduling_trace_Inr split: if_splits sum.splits)

lemma train_loop_append:
  "train_loop cfg fwd i (xs @ ys) s =
     (case train_loop cfg fwd i xs s of Inl e \<Rightarrow> Inl e
      | Inr s1 \<Rightarrow> train_loop cfg fwd (i + int (length xs)) ys s1)"
proof (induction xs arbitrary: i s)
  case Nil
  then show ?case by simp
next
  case (Cons x xs)
  have idx: "i + int (length (x # xs)) = i + 1 + int (length xs)" by simp
  show ?case
    unfolding idx
    by (cases "train_step cfg fwd i x (emit [Fetch] s)") (simp_all add: Cons.IH)
qed

subsection \<open>Steps beyond the declared number of steps\<close>

lemma skipped_mono: "0 < update_freq cfg \<Longrightarrow> skipped cfg i \<Longrightarrow> i \<le> j \<Longrightarrow> skipped cfg j"
  unfolding skipped_def using zdiv_mono1 [of i j "update_freq cfg"] by linarith

lemma train_loop_skipped:
  "0 < update_freq cfg \<Longrightarrow> skipped cfg i \<Longrightarrow>
   train_loop cfg fwd i bs s = Inr (emit (replicate (length bs) Fetch) s)"
proof (induction bs arbitrary: i s)
  case Nil
  then show ?case by (simp add: emit_Nil)
next
  case (Cons b bs)
  have sk: "skipped cfg (i + 1)" using skipped_mono [OF Cons.prems(1) Cons.prems(2), of "i + 1"] by simp
  have st: "train_step cfg fwd i b (emit [Fetch] s) = Inr (emit [Fetch] s)"
    using Cons.prems by (simp add: train_step_skipped)
  show ?case
    using Cons.IH [OF Cons.prems(1) sk, of "emit [Fetch] s"] st
    by (simp add: emit_emit replicate_app_Cons_same)
qed

text \<open>
  C9: once the per-epoch step index \<open>data_iter_step div update_freq\<close> has reached
  \<open>num_training_steps_per_epoch\<close>, an iteration changes nothing (no schedule update, forward
  pass, backward pass, optimizer step or metric record), and the loop still draws every
  remaining batch from the data loader: the only events are one \<open>Fetch\<close> per batch.
\<close>

theorem skipped_steps_drained:
  assumes "0 < update_freq cfg" and "skipped cfg i"
  shows "train_step cfg fwd i b s = Inr s \<and>
         train_loop cfg fwd i bs s = Inr (emit (replicate (length bs) Fetch) s)"
  using assms by (simp add: train_step_skipped train_loop_skipped)

theorem skipped_steps_drained_witness:
  "0 < update_freq cfg_ex \<and> skipped cfg_ex 4 \<and>
   train_step cfg_ex fwd_ex 4 out_nan s_ex = Inr s_ex \<and>
   train_loop cfg_ex fwd_ex 4 [out_ok, out_nan] s_ex = Inr (emit [Fetch, Fetch] s_ex)"
proof -
  have h: "0 < update_freq cfg_ex" "skipped cfg_ex 4"
    by (simp_all add: cfg_ex_def skipped_def)
  show ?thesis
    using h skipped_steps_drained [OF h, of fwd_ex out_nan s_ex "[out_ok, out_nan]"] by simp
qed

subsection \<open>A loss that is not finite\<close>

text \<open>
  C2: when the loss of micro-step \<open>k\<close> is not finite, \<^verbatim>\<open>train_one_epoch\<close> ends with
  the AssertionError of line 75. The trace ends with the forward pass of micro-step \<open>k\<close>:
  no backward pass and no optimizer step of that micro-step, and no batch drawn after it,
  whatever batches remain.
\<close>

theorem nonfinite_loss_stops_loop:
  assumes pre: "train_loop cfg fwd 0 pre \<lparr>groups = gs, trace = [ZeroGrad]\<rparr> = Inr s"
    and k: "k = int (length pre)"
    and F: "update_freq cfg \<noteq> 0"
    and ns: "\<not> skipped cfg k"
    and sch: "scheduling cfg k (start_steps cfg + k div update_freq cfg) (emit [Fetch] s) = Inr s1"
    and nf: "\<not> isfinite (loss_item (fwd s1 b))"
  shows "train_one_epoch cfg fwd (pre @ b # rest) gs =
           Inl (AssertionError, s1\<lparr>trace := trace s @ [Fetch, Forward]\<rparr>)"
proof -
  have tr: "trace s1 = trace s @ [Fetch]"
    using scheduling_trace_Inr [OF sch] by (simp add: trace_emit)
  have st: "train_step cfg fwd k b (emit [Fetch] s) = Inl (AssertionError, emit [Forward] s1)"
    using F ns sch nf by (simp add: train_step_def Let_def)
  have e: "emit [Forward] s1 = s1\<lparr>trace := trace s @ [Fetch, Forward]\<rparr>"
    by (simp add: emit_def tr)
  have "train_loop cfg fwd 0 (pre @ b # rest) \<lparr>groups = gs, trace = [ZeroGrad]\<rparr> =
          Inl (AssertionError, emit [Forward] s1)"
    using pre st k by (simp add: train_loop_append)
  then show ?thesis by (simp add: train_one_epoch_def e)
qed

theorem nonfinite_loss_stops_loop_witness:
  "train_one_epoch cfg_ex fwd_ex [out_nan, out_ok] [g_ex] =
     Inl (AssertionError, \<lparr>groups = [\<lparr>lr = 6, lr_scale = 2, weight_decay = 5\<rparr>],
                           trace = [ZeroGrad, Fetch, Forward]\<rparr>)"
proof -
  let ?s = "\<lparr>groups = [g_ex], trace = [ZeroGrad]\<rparr>"
  let ?s1 = "\<lparr>groups = [\<lparr>lr = 6, lr_scale = 2, weight_decay = 5\<rparr>], trace = [ZeroGrad, Fetch]\<rparr>"
  have 1: "train_loop cfg_ex fwd_ex 0 [] ?s = Inr ?s" by simp
  have 2: "(0::int) = int (length ([]::outcome list))" by simp
  have 3: "update_freq cfg_ex \<noteq> 0" by (simp add: cfg_ex_def)
  have 4: "\<not> skipped cfg_ex 0" by (simp add: cfg_ex_def skipped_def)
  have 5: "scheduling cfg_ex 0 (start_steps cfg_ex + 0 div update_freq cfg_ex) (emit [Fetch] ?s) = Inr ?s1"
    by (simp add: ex_defs loop_defs)
  have 6: "\<not> isfinite (loss_item (fwd_ex ?s1 out_nan))" by (simp add: fwd_ex_def out_nan_def)
  show ?thesis
    using nonfinite_loss_stops_loop [OF 1 2 3 4 5 6, of "[out_ok]"] by simp
qed

subsection \<open>Optimizer steps\<close>

lemma filter_opt_recorded: "filter is_opt_step (recorded cfg it gs out) = []"
  by (simp add: recorded_def Let_def)

lemma opt_steps_accumulate:
  "opt_steps (accumulate cfg i l) = (if step_due cfg i then 1 else 0)"
  by (simp add: opt_steps_def accumulate_def)

lemma opt_steps_recorded: "opt_steps (recorded cfg it gs out) = 0"
  by (simp add: opt_steps_def filter_opt_recorded)

lemma opt_steps_append: "opt_steps (xs @ ys) = opt_steps xs + opt_steps ys"
  by (simp add: opt_steps_def)

lemma train_step_opt_steps:
  assumes "train_step cfg fwd i b s = Inr s'"
  shows "opt_steps (trace s') = opt_steps (trace s) + (if \<not> skipped cfg i \<and> step_due cfg i then 1 else 0)"
proof (cases "skipped cfg i")
  case True
  then have "s' = s" using assms by (auto simp: train_step_def split: if_splits)
  with True show ?thesis by simp
next
  case False
  from train_step_processed [OF assms False] obtain s1 where
    "trace s' = trace s @ [Forward] @ accumulate cfg i (loss_item (fwd s1 b)) @
                        recorded cfg (start_steps cfg + i div update_freq cfg) (groups s1) (fwd s1 b)"
    by blast
  then have "opt_steps (trace s') = opt_steps (trace s) + (opt_steps [Forward] +
      (opt_steps (accumulate cfg i (loss_item (fwd s1 b))) +
       opt_steps (recorded cfg (start_steps cfg + i div update_freq cfg) (groups s1) (fwd s1 b))))"
    by (simp only: opt_steps_append)
  moreover have "opt_steps [Forward] = 0" by (simp add: opt_steps_def)
  ultimately show ?thesis using False
    by (simp add: opt_steps_accumulate opt_steps_recorded)
qed

lemma train_loop_opt_steps:
  "train_loop cfg fwd i bs s = Inr s' \<Longrightarrow>
   opt_steps (trace s') = opt_steps (trace s) +
     length (filter (\<lambda>j. \<not> skipped cfg j \<and> step_due cfg j) [i..i + int (length bs) - 1])"
proof (induction bs arbitrary: i s)
  case Nil
  then show ?case by simp
next
  case (Cons b bs)
  from Cons.prems obtain s1 where
    st: "train_step cfg fwd i b (emit [Fetch] s) = Inr s1" and
    lp: "train_loop cfg fwd (i + 1) bs s1 = Inr s'"
    by (auto split: sum.splits)
  have a: "opt_steps (trace s1) = opt_steps (trace s) + (if \<not> skipped cfg i \<and> step_due cfg i then 1 else 0)"
  proof -
    have "opt_steps [Fetch] = 0" by (simp add: opt_steps_def)
    then show ?thesis using train_step_opt_steps [OF st] by (simp add: trace_emit opt_steps_append)
  qed
  have u: "[i..i + int (length (b # bs)) - 1] = i # [i + 1..i + 1 + int (length bs) - 1]"
    by (simp add: upto_rec1 [of i] algebra_simps)
  show ?case
    unfolding u using Cons.IH [OF lp] a by simp
qed

lemma div_Suc_step:
  fixes F :: int
  assumes F: "0 < F"
  shows "(n + 1) div F = n div F + (if (n + 1) mod F = 0 then 1 else 0)"
proof -
  define q where "q = n div F"
  define r where "r = n mod F"
  have n: "n = F * q + r" by (simp add: q_def r_def)
  have r: "0 \<le> r" "r < F" using F by (simp_all add: r_def)
  show ?thesis
  proof (cases "r + 1 < F")
    case True
    have e: "n + 1 = F * q + (r + 1)" using n by simp
    have "(n + 1) div F = q" using int_div_pos_eq [OF e _ True] r by simp
    moreover have "(n + 1) mod F = r + 1" using int_mod_pos_eq [OF e _ True] r by simp
    ultimately show ?thesis using r by (simp add: q_def)
  next
    case False
    then have rF: "r + 1 = F" using r by simp
    have e: "n + 1 = F * (q + 1) + 0" using n rF by (simp add: algebra_simps)
    have "(n + 1) div F = q + 1" using int_div_pos_eq [OF e _ F] by simp
    moreover have "(n + 1) mod F = 0" using int_mod_pos_eq [OF e _ F] by simp
    ultimately show ?thesis by (simp add: q_def)
  qed
qed

lemma count_multiples:
  fixes F :: int
  assumes "0 < F"
  shows "int (length (filter (\<lambda>m. (m + 1) mod F = 0) [0..int n - 1])) = int n div F"
proof (induction n)
  case 0
  then show ?case by simp
next
  case (Suc n)
  have u: "[0..int (Suc n) - 1] = [0..int n - 1] @ [int n]"
    using upto_rec2 [of 0 "int n"] by simp
  show ?case
    unfolding u using Suc.IH div_Suc_step [OF assms, of "int n"]
    by (simp add: algebra_simps)
qed

lemma not_skipped_below:
  assumes "0 < update_freq cfg" "j < num_training_steps_per_epoch cfg * update_freq cfg"
  shows "\<not> skipped cfg j"
proof
  assume "skipped cfg j"
  then have le: "num_training_steps_per_epoch cfg \<le> j div update_freq cfg"
    by (simp add: skipped_def)
  have a: "num_training_steps_per_epoch cfg * update_freq cfg \<le> (j div update_freq cfg) * update_freq cfg"
    using le assms(1) by (simp add: mult_right_mono)
  have m: "0 \<le> j mod update_freq cfg" using assms(1) by simp
  have d: "(j div update_freq cfg) * update_freq cfg + j mod update_freq cfg = j" by simp
  show False using a m d assms(2) by linarith
qed

lemma accumulate_shape:
  "step_due cfg i \<Longrightarrow>
   accumulate cfg i l =
     (if use_amp cfg then [LossScaler (fdiv l (update_freq cfg)) True]
      else [Backward (fdiv l (update_freq cfg)), OptStep]) @
     ZeroGrad # (if has_model_ema cfg then [EmaUpdate] else [])"
  by (simp add: accumulate_def)

text \<open>
  C3: a processed micro-step \<open>i\<close> performs exactly one optimizer step when
  \<open>(i + 1) mod update_freq = 0\<close> and none otherwise; the step is followed at once by
  \<open>ZeroGrad\<close> and, with an EMA model, by \<open>EmaUpdate\<close>. Over a loop the optimizer steps
  are counted by the processed micro-steps with \<open>(m + 1) mod update_freq = 0\<close>, and an
  epoch of \<open>n\<close> batches, none skipped, performs \<open>n div update_freq\<close> of them.
\<close>

theorem optimizer_step_every_update_freq:
  "(train_step cfg fwd i b s = Inr s' \<and> \<not> skipped cfg i \<longrightarrow>
      opt_steps (trace s') = opt_steps (trace s) + (if (i + 1) mod update_freq cfg = 0 then 1 else 0) \<and>
      ((i + 1) mod update_freq cfg = 0 \<longrightarrow>
         (\<exists>l post. trace s' = trace s @ [Forward] @
             (if use_amp cfg then [LossScaler l True] else [Backward l, OptStep]) @
             ZeroGrad # (if has_model_ema cfg then [EmaUpdate] else []) @ post \<and> opt_steps post = 0))) \<and>
   (train_loop cfg fwd j bs t = Inr t' \<longrightarrow>
      opt_steps (trace t') = opt_steps (trace t) +
        length (filter (\<lambda>m. \<not> skipped cfg m \<and> (m + 1) mod update_freq cfg = 0)
                  [j..j + int (length bs) - 1])) \<and>
   (train_one_epoch cfg fwd bs gs = Inr u \<and> 0 < update_freq cfg \<and>
    int (length bs) \<le> num_training_steps_per_epoch cfg * update_freq cfg \<longrightarrow>
      int (opt_steps (trace u)) = int (length bs) div update_freq cfg)"
proof (intro conjI impI)
  assume a: "train_step cfg fwd i b s = Inr s' \<and> \<not> skipped cfg i"
  then show "opt_steps (trace s') = opt_steps (trace s) + (if (i + 1) mod update_freq cfg = 0 then 1 else 0)"
    using train_step_opt_steps [of cfg fwd i b s s'] by (simp add: step_due_def)
next
  assume a: "train_step cfg fwd i b s = Inr s' \<and> \<not> skipped cfg i"
    and d: "(i + 1) mod update_freq cfg = 0"
  from a train_step_processed [of cfg fwd i b s s'] obtain s1 where
    tr: "trace s' = trace s @ [Forward] @ accumulate cfg i (loss_item (fwd s1 b)) @
           recorded cfg (start_steps cfg + i div update_freq cfg) (groups s1) (fwd s1 b)"
    by blast
  have sd: "step_due cfg i" using d by (simp add: step_due_def)
  show "\<exists>l post. trace s' = trace s @ [Forward] @
             (if use_amp cfg then [LossScaler l True] else [Backward l, OptStep]) @
             ZeroGrad # (if has_model_ema cfg then [EmaUpdate] else []) @ post \<and> opt_steps post = 0"
    apply (rule exI [of _ "fdiv (loss_item (fwd s1 b)) (update_freq cfg)"])
    apply (rule exI [of _ "recorded cfg (start_steps cfg + i div update_freq cfg) (groups s1) (fwd s1 b)"])
    apply (simp add: tr accumulate_shape [OF sd] opt_steps_recorded)
    done
next
  assume "train_loop cfg fwd j bs t = Inr t'"
  then show "opt_steps (trace t') = opt_steps (trace t) +
        length (filter (\<lambda>m. \<not> skipped cfg m \<and> (m + 1) mod update_freq cfg = 0)
                  [j..j + int (length bs) - 1])"
    using train_loop_opt_steps [of cfg fwd j bs t t'] by (simp add: step_due_def)
next
  assume a: "train_one_epoch cfg fwd bs gs = Inr u \<and> 0 < update_freq cfg \<and>
    int (length bs) \<le> num_training_steps_per_epoch cfg * update_freq cfg"
  then obtain t' where lp: "train_loop cfg fwd 0 bs \<lparr>groups = gs, trace = [ZeroGrad]\<rparr> = Inr t'"
    and u: "u = emit [Synchronize] t'"
    by (auto simp: train_one_epoch_def split: sum.splits)
  have F: "0 < update_freq cfg" using a by simp
  have f: "filter (\<lambda>m. \<not> skipped cfg m \<and> step_due cfg m) [0..0 + int (length bs) - 1] =
           filter (\<lambda>m. (m + 1) mod update_freq cfg = 0) [0..int (length bs) - 1]"
  proof (rule filter_cong)
    show "[0..0 + int (length bs) - 1] = [0..int (length bs) - 1]" by simp
  next
    fix m assume "m \<in> set [0..int (length bs) - 1]"
    then have "m < num_training_steps_per_epoch cfg * update_freq cfg" using a by simp
    then have "\<not> skipped cfg m" using not_skipped_below [OF F] by simp
    then show "(\<not> skipped cfg m \<and> step_due cfg m) = ((m + 1) mod update_freq cfg = 0)"
      by (simp add: step_due_def)
  qed
  have z: "opt_steps [ZeroGrad] = 0" "opt_steps [Synchronize] = 0" by (simp_all add: opt_steps_def)
  have "opt_steps (trace u) = length (filter (\<lambda>m. (m + 1) mod update_freq cfg = 0) [0..int (length bs) - 1])"
    using train_loop_opt_steps [OF lp] f z by (simp add: u trace_emit opt_steps_append)
  then show "int (opt_steps (trace u)) = int (length bs) div update_freq cfg"
    using count_multiples [OF F, of "length bs"] by simp
qed

theorem optimizer_step_every_update_freq_witness:
  "\<not> isl (train_step cfg_ex fwd_ex 1 out_ok s_ex) \<and> \<not> skipped cfg_ex 1 \<and>
   opt_steps (trace (projr (train_step cfg_ex fwd_ex 1 out_ok s_ex))) = opt_steps (trace s_ex) + 1 \<and>
   \<not> isl (train_step cfg_ex fwd_ex 0 out_ok s_ex) \<and> \<not> skipped cfg_ex 0 \<and>
   opt_steps (trace (projr (train_step cfg_ex fwd_ex 0 out_ok s_ex))) = opt_steps (trace s_ex) \<and>
   \<not> isl (train_one_epoch cfg_ex fwd_ex [out_ok, out_ok, out_ok] [g_ex]) \<and>
   0 < update_freq cfg_ex \<and> int (length [out_ok, out_ok, out_ok]) \<le> num_training_steps_per_epoch cfg_ex * update_freq cfg_ex \<and>
   int (opt_steps (trace (projr (train_one_epoch cfg_ex fwd_ex [out_ok, out_ok, out_ok] [g_ex])))) = 1"
proof -
  let ?bs = "[out_ok, out_ok, out_ok]"
  have a1: "\<not> isl (train_step cfg_ex fwd_ex 1 out_ok s_ex)" by (simp add: ex_defs loop_defs)
  have a0: "\<not> isl (train_step cfg_ex fwd_ex 0 out_ok s_ex)" by (simp add: ex_defs loop_defs)
  have n: "\<not> skipped cfg_ex 1" "\<not> skipped cfg_ex 0" by (simp_all add: cfg_ex_def skipped_def)
  have e: "\<not> isl (train_one_epoch cfg_ex fwd_ex ?bs [g_ex])" by (simp add: ex_defs loop_defs)
  have c: "0 < update_freq cfg_ex" "int (length ?bs) \<le> num_training_steps_per_epoch cfg_ex * update_freq cfg_ex"
    by (simp_all add: cfg_ex_def)
  have m: "(1 + 1) mod update_freq cfg_ex = 0" "(0 + 1) mod update_freq cfg_ex \<noteq> 0" "int (length ?bs) div update_freq cfg_ex = 1"
    by (simp_all add: cfg_ex_def)
  have r1: "train_step cfg_ex fwd_ex 1 out_ok s_ex = Inr (projr (train_step cfg_ex fwd_ex 1 out_ok s_ex))"
    using a1 by (cases "train_step cfg_ex fwd_ex 1 out_ok s_ex") simp_all
  have r0: "train_step cfg_ex fwd_ex 0 out_ok s_ex = Inr (projr (train_step cfg_ex fwd_ex 0 out_ok s_ex))"
    using a0 by (cases "train_step cfg_ex fwd_ex 0 out_ok s_ex") simp_all
  have re: "train_one_epoch cfg_ex fwd_ex ?bs [g_ex] = Inr (projr (train_one_epoch cfg_ex fwd_ex ?bs [g_ex]))"
    using e by (cases "train_one_epoch cfg_ex fwd_ex ?bs [g_ex]") simp_all
  have t1: "opt_steps (trace (projr (train_step cfg_ex fwd_ex 1 out_ok s_ex))) = opt_steps (trace s_ex) + 1"
    using optimizer_step_every_update_freq [of cfg_ex fwd_ex 1 out_ok s_ex
        "projr (train_step cfg_ex fwd_ex 1 out_ok s_ex)"] r1 n m by simp
  have t0: "opt_steps (trace (projr (train_step cfg_ex fwd_ex 0 out_ok s_ex))) = opt_steps (trace s_ex)"
    using optimizer_step_every_update_freq [of cfg_ex fwd_ex 0 out_ok s_ex
        "projr (train_step cfg_ex fwd_ex 0 out_ok s_ex)"] r0 n m by simp
  have te: "int (opt_steps (trace (projr (train_one_epoch cfg_ex fwd_ex ?bs [g_ex])))) = 1"
    using optimizer_step_every_update_freq [of cfg_ex fwd_ex _ _ _ _ _ ?bs _ _ "[g_ex]"
        "projr (train_one_epoch cfg_ex fwd_ex ?bs [g_ex])"] re c m by simp
  show ?thesis using a1 a0 n e c t1 t0 te by simp
qed

subsection \<open>The recorded loss\<close>

lemma loss_reported_recorded:
  "concat (map loss_reported (recorded cfg it gs out)) =
     replicate (1 + (if has_log_writer cfg then 1 else 0) + (if has_wandb_logger cfg then 1 else 0))
       (Num (loss_item out))"
  by (simp add: recorded_def Let_def)

lemma loss_reported_accumulate: "concat (map loss_reported (accumulate cfg i l)) = []"
  by (auto simp: accumulate_def)

lemma loss_backpropagated_recorded: "concat (map loss_backpropagated (recorded cfg it gs out)) = []"
  by (auto simp: recorded_def Let_def)

lemma loss_backpropagated_accumulate:
  "concat (map loss_backpropagated (accumulate cfg i l)) = [fdiv l (update_freq cfg)]"
  by (auto simp: accumulate_def)

text \<open>
  C10: in a processed micro-step every loss value handed to the metric logger, the log
  writer and wandb is the criterion's loss \<open>x\<close> itself, while the loss that is
  backpropagated is \<open>x / update_freq\<close>.
\<close>

theorem reported_loss_is_unscaled:
  assumes st: "train_step cfg fwd i b s = Inr s'" and ns: "\<not> skipped cfg i"
  shows "\<exists>s1 x. scheduling cfg i (start_steps cfg + i div update_freq cfg) s = Inr s1 \<and>
           loss_item (fwd s1 b) = Fin x \<and>
           concat (map loss_reported (drop (length (trace s)) (trace s'))) =
             replicate (1 + (if has_log_writer cfg then 1 else 0) + (if has_wandb_logger cfg then 1 else 0))
               (Num (Fin x)) \<and>
           concat (map loss_backpropagated (drop (length (trace s)) (trace s'))) =
             [Fin (x / real_of_int (update_freq cfg))]"
proof -
  from train_step_processed [OF st ns] obtain s1 where
    sch: "scheduling cfg i (start_steps cfg + i div update_freq cfg) s = Inr s1" and
    fin: "isfinite (loss_item (fwd s1 b))" and
    tr: "trace s' = trace s @ [Forward] @ accumulate cfg i (loss_item (fwd s1 b)) @
           recorded cfg (start_steps cfg + i div update_freq cfg) (groups s1) (fwd s1 b)"
    by blast
  from fin obtain x where x: "loss_item (fwd s1 b) = Fin x"
    by (cases "loss_item (fwd s1 b)") simp_all
  have d: "drop (length (trace s)) (trace s') = [Forward] @ accumulate cfg i (Fin x) @
           recorded cfg (start_steps cfg + i div update_freq cfg) (groups s1) (fwd s1 b)"
    by (simp add: tr x)
  have r: "concat (map loss_reported (drop (length (trace s)) (trace s'))) =
             replicate (1 + (if has_log_writer cfg then 1 else 0) + (if has_wandb_logger cfg then 1 else 0))
               (Num (Fin x))"
    unfolding d by (simp add: loss_reported_recorded loss_reported_accumulate x del: replicate.simps)
  have bp: "concat (map loss_backpropagated (drop (length (trace s)) (trace s'))) =
             [Fin (x / real_of_int (update_freq cfg))]"
    unfolding d by (simp add: loss_backpropagated_recorded loss_backpropagated_accumulate)
  show ?thesis using sch x r bp by blast
qed

theorem reported_loss_is_unscaled_witness:
  "\<not> isl (train_step cfg_ex fwd_ex 0 out_ok s_ex) \<and> \<not> skipped cfg_ex 0 \<and>
   update_freq cfg_ex = 2 \<and> loss_item out_ok = Fin 8 \<and>
   concat (map loss_reported (drop (length (trace s_ex)) (trace (projr (train_step cfg_ex fwd_ex 0 out_ok s_ex)))))
     = [Num (Fin 8), Num (Fin 8)] \<and>
   concat (map loss_backpropagated (drop (length (trace s_ex)) (trace (projr (train_step cfg_ex fwd_ex 0 out_ok s_ex)))))
     = [Fin 4]"
proof -
  have a0: "\<not> isl (train_step cfg_ex fwd_ex 0 out_ok s_ex)" by (simp add: ex_defs loop_defs)
  have n: "\<not> skipped cfg_ex 0" by (simp add: cfg_ex_def skipped_def)
  have r0: "train_step cfg_ex fwd_ex 0 out_ok s_ex = Inr (projr (train_step cfg_ex fwd_ex 0 out_ok s_ex))"
    using a0 by (cases "train_step cfg_ex fwd_ex 0 out_ok s_ex") simp_all
  from reported_loss_is_unscaled [OF r0 n] obtain s1 x where
    x: "loss_item (fwd_ex s1 out_ok) = Fin x" and
    r: "concat (map loss_reported (drop (length (trace s_ex)) (trace (projr (train_step cfg_ex fwd_ex 0 out_ok s_ex))))) =
             replicate (1 + (if has_log_writer cfg_ex then 1 else 0) + (if has_wandb_logger cfg_ex then 1 else 0))
               (Num (Fin x))" and
    b: "concat (map loss_backpropagated (drop (length (trace s_ex)) (trace (projr (train_step cfg_ex fwd_ex 0 out_ok s_ex))))) =
             [Fin (x / real_of_int (update_freq cfg_ex))]"
    by blast
  have x8: "x = 8" using x by (simp add: fwd_ex_def out_ok_def)
  have c: "has_log_writer cfg_ex" "\<not> has_wandb_logger cfg_ex" "update_freq cfg_ex = 2" by (simp_all add: cfg_ex_def)
  show ?thesis using a0 n r b x8 c by (simp add: out_ok_def numeral_2_eq_2)
qed

subsection \<open>Schedule lookup\<close>

lemma set_lr_in: "0 \<le> it \<Longrightarrow> it < int (length t) \<Longrightarrow> set_lr (Some t) it g = Inr (g\<lparr>lr := t ! nat it * lr_scale g\<rparr>)"
  by (simp add: set_lr_def py_index_in_range)

lemma set_lr_out: "int (length t) \<le> it \<Longrightarrow> set_lr (Some t) it g = Inl (IndexError, g)"
  by (simp add: set_lr_def py_index_beyond)

lemma set_wd_in: "0 \<le> it \<Longrightarrow> it < int (length w) \<Longrightarrow> 0 < weight_decay g \<Longrightarrow>
    set_wd (Some w) it g = Inr (g\<lparr>weight_decay := w ! nat it\<rparr>)"
  by (simp add: set_wd_def py_index_in_range)

lemma set_wd_out: "int (length w) \<le> it \<Longrightarrow> 0 < weight_decay g \<Longrightarrow> set_wd (Some w) it g = Inl (IndexError, g)"
  by (simp add: set_wd_def py_index_beyond)

lemma train_step_lr_out:
  assumes "lr_schedule_values cfg = Some t" "groups s \<noteq> []" "update_freq cfg \<noteq> 0" "\<not> skipped cfg i"
    "int (length t) \<le> start_steps cfg + i div update_freq cfg"
  shows "train_step cfg fwd i b s = Inl (IndexError, s)"
proof -
  obtain g gs where g: "groups s = g # gs" using assms(2) by (cases "groups s") auto
  have "refresh_groups (Some t) (wd_schedule_values cfg) (start_steps cfg + i div update_freq cfg) (g # gs)
          = Inl (IndexError, g # gs)"
    using assms(5) by (simp add: set_group_def set_lr_out)
  then have "scheduling cfg i (start_steps cfg + i div update_freq cfg) s = Inl (IndexError, s)"
    using assms(1) g by (simp add: scheduling_def refresh_due_def)
  then show ?thesis using assms(3,4) by (simp add: train_step_def)
qed

text \<open>
  C4: for a global step \<open>it\<close> within the table the lookup returns the stored value,
  the learning rate of a group becomes that value times the group's \<open>lr_scale\<close> and the
  weight decay of a group with positive weight decay becomes that value; for a global step
  at or beyond the length of the table the lookup raises IndexError, and so does the
  iteration of the training loop that performs it.
\<close>

theorem schedule_lookup_exact_or_index_error:
  "(0 \<le> it \<and> it < int (length t) \<longrightarrow>
      py_index t it = Inr (t ! nat it) \<and>
      set_lr (Some t) it g = Inr (g\<lparr>lr := t ! nat it * lr_scale g\<rparr>) \<and>
      (0 < weight_decay g \<longrightarrow> set_wd (Some t) it g = Inr (g\<lparr>weight_decay := t ! nat it\<rparr>))) \<and>
   (int (length t) \<le> it \<longrightarrow>
      py_index t it = Inl IndexError \<and>
      set_lr (Some t) it g = Inl (IndexError, g) \<and>
      (0 < weight_decay g \<longrightarrow> set_wd (Some t) it g = Inl (IndexError, g))) \<and>
   (lr_schedule_values cfg = Some t \<and> groups s \<noteq> [] \<and> update_freq cfg \<noteq> 0 \<and> \<not> skipped cfg i \<and>
    int (length t) \<le> start_steps cfg + i div update_freq cfg \<longrightarrow>
      train_step cfg fwd i b s = Inl (IndexError, s))"
  by (simp add: py_index_in_range py_index_beyond set_lr_in set_lr_out set_wd_in set_wd_out train_step_lr_out)

theorem schedule_lookup_exact_or_index_error_witness:
  "py_index [3, 4 :: real] 1 = Inr 4 \<and>
   set_lr (Some [3, 4]) 1 g_ex = Inr \<lparr>lr = 8, lr_scale = 2, weight_decay = 1\<rparr> \<and>
   set_wd (Some [3, 4]) 1 g_ex = Inr \<lparr>lr = 7, lr_scale = 2, weight_decay = 4\<rparr> \<and>
   py_index [3, 4 :: real] 2 = Inl IndexError \<and>
   set_lr (Some [3, 4]) 2 g_ex = Inl (IndexError, g_ex) \<and>
   set_wd (Some [3, 4]) 2 g_ex = Inl (IndexError, g_ex) \<and>
   train_step (cfg_ex\<lparr>start_steps := 2\<rparr>) fwd_ex 0 out_ok s_ex = Inl (IndexError, s_ex)"
proof -
  have w: "0 < weight_decay g_ex" by (simp add: g_ex_def)
  have c: "lr_schedule_values (cfg_ex\<lparr>start_steps := 2\<rparr>) = Some [3, 4]" "groups s_ex \<noteq> []"
    "update_freq (cfg_ex\<lparr>start_steps := 2\<rparr>) \<noteq> 0" "\<not> skipped (cfg_ex\<lparr>start_steps := 2\<rparr>) 0"
    "int (length [3, 4 :: real]) \<le> start_steps (cfg_ex\<lparr>start_steps := 2\<rparr>) + 0 div update_freq (cfg_ex\<lparr>start_steps := 2\<rparr>)"
    by (simp_all add: cfg_ex_def s_ex_def skipped_def)
  show ?thesis
    using schedule_lookup_exact_or_index_error [of 1 "[3, 4]" g_ex "cfg_ex\<lparr>start_steps := 2\<rparr>" s_ex 0 fwd_ex out_ok]
      schedule_lookup_exact_or_index_error [of 2 "[3, 4]" g_ex "cfg_ex\<lparr>start_steps := 2\<rparr>" s_ex 0 fwd_ex out_ok]
      w c
    by (simp add: g_ex_def)
qed

subsection \<open>When the parameter groups are refreshed\<close>

lemma set_group_in:
  assumes "\<forall>t. lrt = Some t \<longrightarrow> 0 \<le> it \<and> it < int (length t)"
      and "\<forall>t. wdt = Some t \<longrightarrow> 0 \<le> it \<and> it < int (length t)"
  shows "set_group lrt wdt it g =
     Inr (g\<lparr>lr := (case lrt of None \<Rightarrow> lr g | Some t \<Rightarrow> t ! nat it * lr_scale g),
            weight_decay := (case wdt of None \<Rightarrow> weight_decay g
                             | Some t \<Rightarrow> if 0 < weight_decay g then t ! nat it else weight_decay g)\<rparr>)"
  using assms
  by (cases lrt; cases wdt) (simp_all add: set_group_def set_lr_def set_wd_def py_index_in_range)

lemma refresh_groups_in:
  assumes "\<forall>t. lrt = Some t \<longrightarrow> 0 \<le> it \<and> it < int (length t)"
      and "\<forall>t. wdt = Some t \<longrightarrow> 0 \<le> it \<and> it < int (length t)"
  shows "refresh_groups lrt wdt it gs =
     Inr (map (\<lambda>g. g\<lparr>lr := (case lrt of None \<Rightarrow> lr g | Some t \<Rightarrow> t ! nat it * lr_scale g),
            weight_decay := (case wdt of None \<Rightarrow> weight_decay g
                             | Some t \<Rightarrow> if 0 < weight_decay g then t ! nat it else weight_decay g)\<rparr>) gs)"
  by (induction gs) (simp_all add: set_group_in [OF assms])

lemma refresh_on_accumulation_boundary:
  "(i mod update_freq cfg = 0 \<and>
    (\<forall>t. lr_schedule_values cfg = Some t \<longrightarrow> 0 \<le> it \<and> it < int (length t)) \<and>
    (\<forall>t. wd_schedule_values cfg = Some t \<longrightarrow> 0 \<le> it \<and> it < int (length t)) \<longrightarrow>
      scheduling cfg i it s =
        Inr (s\<lparr>groups := map (\<lambda>g. g\<lparr>lr := (case lr_schedule_values cfg of None \<Rightarrow> lr g
                                             | Some t \<Rightarrow> t ! nat it * lr_scale g),
                 weight_decay := (case wd_schedule_values cfg of None \<Rightarrow> weight_decay g
                                  | Some t \<Rightarrow> if 0 < weight_decay g then t ! nat it else weight_decay g)\<rparr>)
               (groups s)\<rparr>)) \<and>
   (i mod update_freq cfg \<noteq> 0 \<and> lr_schedule_values cfg = None \<longrightarrow> scheduling cfg i it s = Inr s)"
proof (intro conjI impI)
  assume a: "i mod update_freq cfg = 0 \<and>
    (\<forall>t. lr_schedule_values cfg = Some t \<longrightarrow> 0 \<le> it \<and> it < int (length t)) \<and>
    (\<forall>t. wd_schedule_values cfg = Some t \<longrightarrow> 0 \<le> it \<and> it < int (length t))"
  let ?f = "\<lambda>g. g\<lparr>lr := (case lr_schedule_values cfg of None \<Rightarrow> lr g
                                             | Some t \<Rightarrow> t ! nat it * lr_scale g),
                 weight_decay := (case wd_schedule_values cfg of None \<Rightarrow> weight_decay g
                                  | Some t \<Rightarrow> if 0 < weight_decay g then t ! nat it else weight_decay g)\<rparr>"
  have r: "refresh_groups (lr_schedule_values cfg) (wd_schedule_values cfg) it (groups s) = Inr (map ?f (groups s))"
    using a by (intro refresh_groups_in) simp_all
  show "scheduling cfg i it s = Inr (s\<lparr>groups := map ?f (groups s)\<rparr>)"
  proof (cases "refresh_due cfg i")
    case True
    then show ?thesis by (simp add: scheduling_def r)
  next
    case False
    then have n: "lr_schedule_values cfg = None" "wd_schedule_values cfg = None"
      using a by (auto simp: refresh_due_def)
    have "map ?f (groups s) = groups s" by (simp add: n map_idI)
    then show ?thesis using False by (simp add: scheduling_def)
  qed
next
  assume "i mod update_freq cfg \<noteq> 0 \<and> lr_schedule_values cfg = None"
  then show "scheduling cfg i it s = Inr s" by (simp add: scheduling_def refresh_due_def)
qed

lemma set_group_idem:
  "set_group lrt wdt it g = Inr g1 \<Longrightarrow> set_group lrt wdt it g1 = Inr g1"
  by (cases lrt; cases wdt)
     (auto simp: set_group_def set_lr_def set_wd_def split: sum.splits if_splits)

lemma refresh_groups_idem:
  "refresh_groups lrt wdt it gs = Inr gs1 \<Longrightarrow> refresh_groups lrt wdt it gs1 = Inr gs1"
proof (induction gs arbitrary: gs1)
  case Nil
  then show ?case by simp
next
  case (Cons g gs)
  from Cons.prems obtain g1 gs' where
    g: "set_group lrt wdt it g = Inr g1" and r: "refresh_groups lrt wdt it gs = Inr gs'" and e: "gs1 = g1 # gs'"
    by (auto split: sum.splits prod.splits)
  show ?case using set_group_idem [OF g] Cons.IH [OF r] by (simp add: e)
qed

text \<open>
  C1: with a learning-rate table the condition of line 50 holds at every micro-step: at
  micro-step 1 with \<open>update_freq = 2\<close> the parameter groups are refreshed.
\<close>

theorem refresh_at_intermediate_micro_step:
  "1 mod update_freq cfg_ex \<noteq> 0 \<and> refresh_due cfg_ex 1 \<and>
   scheduling cfg_ex 1 0 \<lparr>groups = [\<lparr>lr = 7, lr_scale = 1, weight_decay = 1\<rparr>], trace = []\<rparr> =
     Inr \<lparr>groups = [\<lparr>lr = 3, lr_scale = 1, weight_decay = 5\<rparr>], trace = []\<rparr>"
  by (simp add: cfg_ex_def scheduling_def refresh_due_def set_group_def set_lr_def set_wd_def py_index_def Let_def)

theorem refresh_at_intermediate_micro_step_witness:
  "lr_schedule_values cfg_ex \<noteq> None \<and> 1 mod update_freq cfg_ex \<noteq> 0 \<and> refresh_due cfg_ex 1"
  using refresh_at_intermediate_micro_step by (simp add: cfg_ex_def)

section \<open>Properties of the inference run\<close>

subsection \<open>The ground-truth label of a file name\<close>

lemma split_on_hd: "split_on d s = takeWhile (\<lambda>c. c \<noteq> d) s # tl (split_on d s)"
  by (induction s) (auto split: list.splits)

lemma py_index_0: "py_index (x # xs) 0 = Inr x"
  by (simp add: py_index_def Let_def)

lemma py_index_1: "py_index (x # y # xs) 1 = Inr y"
  by (simp add: py_index_def Let_def)

lemma parse_target_first_component:
  "parse_target nm =
     (case py_index (takeWhile (\<lambda>c. c \<noteq> CHR ''_'') nm) 0 of
        Inl e \<Rightarrow> Inl e
      | Inr c0 \<Rightarrow>
          if c0 = CHR ''t''
          then (case py_index (takeWhile (\<lambda>c. c \<noteq> CHR ''_'') nm) 1 of Inl e \<Rightarrow> Inl e | Inr c1 \<Rightarrow> py_int_char c1)
          else Inr (- 1))"
  unfolding parse_target_def by (subst split_on_hd) (simp add: py_index_0)

lemma parse_target_t_digit:
  assumes "48 \<le> (of_char c :: nat)" "(of_char c :: nat) \<le> 57"
  shows "parse_target (CHR ''t'' # c # rest) = Inr (int (of_char c) - 48)"
proof -
  have "c \<noteq> CHR ''_''" using assms by auto
  then show ?thesis using assms
    by (simp add: parse_target_first_component py_index_0 py_index_1 py_int_char_def)
qed

lemma parse_target_not_t:
  assumes "c \<noteq> CHR ''t''" "c \<noteq> CHR ''_''"
  shows "parse_target (c # rest) = Inr (- 1)"
  using assms by (simp add: parse_target_first_component py_index_0)

text \<open>
  C7: the label is not \<open>- 1\<close> for every file name without a \<open>t<digit>\<close> prefix: a name
  whose first component starts with \<open>t\<close> followed by a non-digit raises ValueError, a first
  component that is \<open>t\<close> alone or empty raises IndexError, and the exception ends the whole run.
\<close>

theorem parse_target_raises_without_digit:
  "parse_target ''test_1.jpg'' = Inl ValueError \<and>
   parse_target ''t_1.jpg'' = Inl IndexError \<and>
   parse_target ''_1.jpg'' = Inl IndexError \<and>
   collect_results infer [''t0_a.jpg'', ''test_1.jpg'', ''t1_b.jpg''] = Inl ValueError"
  by (simp add: parse_target_def py_index_def py_int_char_def Let_def)

subsection \<open>The statistical report\<close>

lemmas report_defs = pred_eval_report_def confs_def idxs_def known_truth_def

lemma length_confs: "length (confs cond result) = length (filter (\<lambda>(p, c, t, f). cond p t) result)"
  by (simp add: confs_def)

lemma length_idxs: "length (idxs cond result) = length (filter (\<lambda>(p, c, t, f). cond p t) result)"
proof -
  have "filter (\<lambda>(p, c, t, f). cond p t) result =
        map ((!) result) (filter (\<lambda>i. case result ! i of (p, c, t, f) \<Rightarrow> cond p t) [0..<length result])"
    by (subst (1) map_nth [symmetric]) (simp only: filter_map o_def)
  then show ?thesis by (simp add: idxs_def)
qed

lemma four_filters:
  "length (filter (\<lambda>(p, c, t, f). p = t \<and> p = (0::int)) (xs :: prediction_record list)) +
   length (filter (\<lambda>(p, c, t, f). p = t \<and> p = 1) xs) +
   length (filter (\<lambda>(p, c, t, f). p \<noteq> t \<and> p = 0) xs) +
   length (filter (\<lambda>(p, c, t, f). p \<noteq> t \<and> p = 1) xs) =
   length (filter (\<lambda>(p, c, t, f). p = 0 \<or> p = 1) xs)"
  by (induction xs) auto

lemma count_list_distinct: "distinct xs \<Longrightarrow> x \<in> set xs \<Longrightarrow> count_list xs x = 1"
  by (induction xs) auto

lemma count_idxs:
  "count_list (idxs cond result) i =
     (if i < length result \<and> (case result ! i of (p, c, t, f) \<Rightarrow> cond p t) then 1 else 0)"
proof -
  have d: "distinct (idxs cond result)" by (simp add: idxs_def)
  have s: "i \<in> set (idxs cond result) \<longleftrightarrow> i < length result \<and> (case result ! i of (p, c, t, f) \<Rightarrow> cond p t)"
    by (auto simp: idxs_def)
  show ?thesis
  proof (cases "i \<in> set (idxs cond result)")
    case True
    then show ?thesis using d s by (simp add: count_list_distinct)
  next
    case False
    then show ?thesis using s by (simp add: count_list_0_iff)
  qed
qed

lemma set_idxs: "set (idxs cond result) = {i. i < length result \<and> (case result ! i of (p, c, t, f) \<Rightarrow> cond p t)}"
  by (auto simp: idxs_def)

lemma report_four:
  assumes "pred_eval_report result = Inr r" "four_buckets r"
  shows "conf_TN r = confs (\<lambda>p t. p = t \<and> p = 0) result"
    "conf_TP r = confs (\<lambda>p t. p = t \<and> p = 1) result"
    "conf_FN r = confs (\<lambda>p t. p \<noteq> t \<and> p = 0) result"
    "conf_FP r = confs (\<lambda>p t. p \<noteq> t \<and> p = 1) result"
    "itn r = idxs (\<lambda>p t. p = t \<and> p = 0) result"
    "itp r = idxs (\<lambda>p t. p = t \<and> p = 1) result"
    "ifn r = idxs (\<lambda>p t. p \<noteq> t \<and> p = 0) result"
    "ifp r = idxs (\<lambda>p t. p \<noteq> t \<and> p = 1) result"
  using assms by (auto simp: pred_eval_report_def split: if_splits)

lemma filter_as_indices:
  "filter P xs = map ((!) xs) (filter (\<lambda>i. P (xs ! i)) [0..<length xs])"
  by (subst (1) map_nth [symmetric]) (simp only: filter_map o_def)

lemma confs_idxs: "confs cond result = map (\<lambda>i. fst (snd (result ! i))) (idxs cond result)"
proof -
  have "confs cond result =
          map (\<lambda>(p, c, t, f). c) (map ((!) result)
            (filter (\<lambda>i. (\<lambda>(p, c, t, f). cond p t) (result ! i)) [0..<length result]))"
    unfolding confs_def by (subst filter_as_indices) (rule refl)
  also have "\<dots> = map (\<lambda>i. fst (snd (result ! i))) (idxs cond result)"
    by (simp add: idxs_def split_beta)
  finally show ?thesis .
qed

lemma idxs_below: "i \<in> set (idxs cond result) \<Longrightarrow> i < length result"
  by (simp add: idxs_def)

text \<open>
  C5, as amended: in the four-bucket report a record is in the true-negative, true-positive,
  false-negative or false-positive bucket exactly when its predicted class is 0 or 1 and
  equals, or differs from, its label; so each record with predicted class 0 or 1 is in
  exactly one bucket, a record with predicted = actual = 1 in the true-positive bucket only,
  and a record with unknown ground truth in the false-negative or the false-positive bucket
  by its predicted class. The bucket sizes add up to the number of records whose predicted
  class is 0 or 1, whether or not their ground truth is known, and to the number of records
  with known ground truth when every record has a known ground truth and a predicted class 0
  or 1. The confidences of a bucket are those of its records, in the order of the records.
\<close>

theorem four_bucket_partition:
  assumes rep: "pred_eval_report result = Inr r" and four: "four_buckets r"
  shows "length (conf_TN r) + length (conf_TP r) + length (conf_FN r) + length (conf_FP r) =
           length (filter (\<lambda>(p, c, t, f). p = 0 \<or> p = 1) result) \<and>
         length (itn r) = length (conf_TN r) \<and> length (itp r) = length (conf_TP r) \<and>
         length (ifn r) = length (conf_FN r) \<and> length (ifp r) = length (conf_FP r) \<and>
         (\<forall>i < length result. (case result ! i of (p, c, t, f) \<Rightarrow> p = 0 \<or> p = 1) \<longrightarrow>
            count_list (itn r @ itp r @ ifn r @ ifp r) i = 1) \<and>
         (\<forall>i < length result. (case result ! i of (p, c, t, f) \<Rightarrow> p = 1 \<and> t = 1) \<longrightarrow>
            i \<in> set (itp r) \<and> i \<notin> set (itn r) \<and> i \<notin> set (ifn r) \<and> i \<notin> set (ifp r)) \<and>
         ((\<forall>x \<in> set result. known_truth x \<and> (case x of (p, c, t, f) \<Rightarrow> p = 0 \<or> p = 1)) \<longrightarrow>
            length (conf_TN r) + length (conf_TP r) + length (conf_FN r) + length (conf_FP r) =
              length (filter known_truth result)) \<and>
         (\<forall>i < length result. case result ! i of (p, c, t, f) \<Rightarrow>
            (i \<in> set (itn r)) = (p = t \<and> p = 0) \<and> (i \<in> set (itp r)) = (p = t \<and> p = 1) \<and>
            (i \<in> set (ifn r)) = (p \<noteq> t \<and> p = 0) \<and> (i \<in> set (ifp r)) = (p \<noteq> t \<and> p = 1)) \<and>
         (\<forall>i < length result. \<not> known_truth (result ! i) \<longrightarrow>
            (case result ! i of (p, c, t, f) \<Rightarrow>
               (p = 0 \<longrightarrow> i \<in> set (ifn r)) \<and> (p = 1 \<longrightarrow> i \<in> set (ifp r))) \<and>
            i \<notin> set (itn r) \<and> i \<notin> set (itp r)) \<and>
         (\<forall>i \<in> set (itn r @ itp r @ ifn r @ ifp r). i < length result) \<and>
         (\<forall>i. count_list (itn r @ itp r @ ifn r @ ifp r) i \<le> 1) \<and>
         conf_TN r = map (\<lambda>i. fst (snd (result ! i))) (itn r) \<and>
         conf_TP r = map (\<lambda>i. fst (snd (result ! i))) (itp r) \<and>
         conf_FN r = map (\<lambda>i. fst (snd (result ! i))) (ifn r) \<and>
         conf_FP r = map (\<lambda>i. fst (snd (result ! i))) (ifp r)"
proof -
  note f = report_four [OF rep four]
  have sum: "length (conf_TN r) + length (conf_TP r) + length (conf_FN r) + length (conf_FP r) =
           length (filter (\<lambda>(p, c, t, f). p = 0 \<or> p = 1) result)"
    unfolding f length_confs by (rule four_filters)
  have len: "length (itn r) = length (conf_TN r)" "length (itp r) = length (conf_TP r)"
    "length (ifn r) = length (conf_FN r)" "length (ifp r) = length (conf_FP r)"
    by (simp_all add: f length_confs length_idxs)
  have one: "\<forall>i < length result. (case result ! i of (p, c, t, f) \<Rightarrow> p = 0 \<or> p = 1) \<longrightarrow>
            count_list (itn r @ itp r @ ifn r @ ifp r) i = 1"
    by (auto simp: f count_idxs split: prod.splits)
  have tp: "\<forall>i < length result. (case result ! i of (p, c, t, f) \<Rightarrow> p = 1 \<and> t = 1) \<longrightarrow>
            i \<in> set (itp r) \<and> i \<notin> set (itn r) \<and> i \<notin> set (ifn r) \<and> i \<notin> set (ifp r)"
    by (auto simp: f set_idxs split: prod.splits)
  have all: "(\<forall>x \<in> set result. known_truth x \<and> (case x of (p, c, t, f) \<Rightarrow> p = 0 \<or> p = 1)) \<longrightarrow>
            length (conf_TN r) + length (conf_TP r) + length (conf_FN r) + length (conf_FP r) =
              length (filter known_truth result)"
  proof
    assume a: "\<forall>x \<in> set result. known_truth x \<and> (case x of (p, c, t, f) \<Rightarrow> p = 0 \<or> p = 1)"
    then have "filter (\<lambda>(p, c, t, f). p = 0 \<or> p = 1) result = result" "filter known_truth result = result"
      by (auto simp: filter_id_conv)
    then show "length (conf_TN r) + length (conf_TP r) + length (conf_FN r) + length (conf_FP r) =
              length (filter known_truth result)"
      using sum by simp
  qed
  have mem: "\<forall>i < length result. case result ! i of (p, c, t, f) \<Rightarrow>
            (i \<in> set (itn r)) = (p = t \<and> p = 0) \<and> (i \<in> set (itp r)) = (p = t \<and> p = 1) \<and>
            (i \<in> set (ifn r)) = (p \<noteq> t \<and> p = 0) \<and> (i \<in> set (ifp r)) = (p \<noteq> t \<and> p = 1)"
    by (auto simp: f set_idxs split: prod.splits)
  have unk: "\<forall>i < length result. \<not> known_truth (result ! i) \<longrightarrow>
            (case result ! i of (p, c, t, f) \<Rightarrow>
               (p = 0 \<longrightarrow> i \<in> set (ifn r)) \<and> (p = 1 \<longrightarrow> i \<in> set (ifp r))) \<and>
            i \<notin> set (itn r) \<and> i \<notin> set (itp r)"
    by (auto simp: f set_idxs known_truth_def split: prod.splits)
  have below: "\<forall>i \<in> set (itn r @ itp r @ ifn r @ ifp r). i < length result"
    by (auto simp: f dest: idxs_below)
  have most: "\<forall>i. count_list (itn r @ itp r @ ifn r @ ifp r) i \<le> 1"
    by (auto simp: f count_idxs split: prod.splits)
  have cf: "conf_TN r = map (\<lambda>i. fst (snd (result ! i))) (itn r)"
    "conf_TP r = map (\<lambda>i. fst (snd (result ! i))) (itp r)"
    "conf_FN r = map (\<lambda>i. fst (snd (result ! i))) (ifn r)"
    "conf_FP r = map (\<lambda>i. fst (snd (result ! i))) (ifp r)"
    by (simp_all only: f confs_idxs)
  show ?thesis
    apply (intro conjI)
    apply (rule sum)
    apply (rule len(1))
    apply (rule len(2))
    apply (rule len(3))
    apply (rule len(4))
    apply (rule one)
    apply (rule tp)
    apply (rule all)
    apply (rule mem)
    apply (rule unk)
    apply (rule below)
    apply (rule most)
    apply (rule cf(1))
    apply (rule cf(2))
    apply (rule cf(3))
    apply (rule cf(4))
    done
qed

lemma report_result_ex:
  "pred_eval_report result_ex =
     Inr \<lparr>four_buckets = True, conf_TN = [8], conf_TP = [9], conf_FN = [7], conf_FP = [6],
          itn = [1], itp = [0], ifn = [2], ifp = [3]\<rparr>"
  by (simp add: result_ex_def report_defs)

lemma report_result_mixed:
  "pred_eval_report result_mixed =
     Inr \<lparr>four_buckets = True, conf_TN = [], conf_TP = [], conf_FN = [9, 8], conf_FP = [],
          itn = [], itp = [], ifn = [0, 1], ifp = []\<rparr>"
  by (simp add: result_mixed_def report_defs)

theorem four_bucket_partition_witness:
  "pred_eval_report result_ex =
     Inr \<lparr>four_buckets = True, conf_TN = [8], conf_TP = [9], conf_FN = [7], conf_FP = [6],
          itn = [1], itp = [0], ifn = [2], ifp = [3]\<rparr> \<and>
   length [8::real] + length [9::real] + length [7::real] + length [6::real] = length (filter known_truth result_ex) \<and>
   length (filter known_truth result_ex) = 4 \<and>
   pred_eval_report result_mixed =
     Inr \<lparr>four_buckets = True, conf_TN = [], conf_TP = [], conf_FN = [9, 8], conf_FP = [],
          itn = [], itp = [], ifn = [0, 1], ifp = []\<rparr> \<and>
   \<not> known_truth (result_mixed ! 1) \<and> (1::nat) \<in> set [0, 1]"
proof -
  let ?r = "\<lparr>four_buckets = True, conf_TN = [8], conf_TP = [9], conf_FN = [7], conf_FP = [6],
          itn = [1], itp = [0], ifn = [2], ifp = [3]\<rparr>"
  let ?q = "\<lparr>four_buckets = True, conf_TN = [], conf_TP = [], conf_FN = [9, 8], conf_FP = [],
          itn = [], itp = [], ifn = [0::nat, 1], ifp = []\<rparr>"
  have four: "four_buckets ?r" "four_buckets ?q" by simp_all
  have all: "\<forall>x \<in> set result_ex. known_truth x \<and> (case x of (p, c, t, f) \<Rightarrow> p = 0 \<or> p = 1)"
    by (simp add: result_ex_def known_truth_def)
  have k: "length (filter known_truth result_ex) = 4" by (simp add: result_ex_def known_truth_def)
  have u: "1 < length result_mixed" "\<not> known_truth (result_mixed ! 1)"
    "(case result_mixed ! 1 of (p, c, t, f) \<Rightarrow> p = 0)"
    by (simp_all add: result_mixed_def known_truth_def)
  note t = four_bucket_partition [OF report_result_ex four(1)]
  note t' = four_bucket_partition [OF report_result_mixed four(2)]
  have a: "length (conf_TN ?r) + length (conf_TP ?r) + length (conf_FN ?r) + length (conf_FP ?r) =
              length (filter known_truth result_ex)"
    using t [THEN conjunct2, THEN conjunct2, THEN conjunct2, THEN conjunct2, THEN conjunct2,
             THEN conjunct2, THEN conjunct2, THEN conjunct1] all by (rule mp)
  have "\<forall>i < length result_mixed. \<not> known_truth (result_mixed ! i) \<longrightarrow>
            (case result_mixed ! i of (p, c, t, f) \<Rightarrow>
               (p = 0 \<longrightarrow> i \<in> set (ifn ?q)) \<and> (p = 1 \<longrightarrow> i \<in> set (ifp ?q))) \<and>
            i \<notin> set (itn ?q) \<and> i \<notin> set (itp ?q)"
    by (rule t' [THEN conjunct2, THEN conjunct2, THEN conjunct2, THEN conjunct2, THEN conjunct2,
             THEN conjunct2, THEN conjunct2, THEN conjunct2, THEN conjunct2, THEN conjunct1])
  then have b: "(1::nat) \<in> set (ifn ?q)" using u by (auto split: prod.splits)
  show ?thesis using report_result_ex report_result_mixed a b k u(2) by simp
qed

theorem four_bucket_claim_counterexample:
  "pred_eval_report result_mixed =
     Inr \<lparr>four_buckets = True, conf_TN = [], conf_TP = [], conf_FN = [9, 8], conf_FP = [],
          itn = [], itp = [], ifn = [0, 1], ifp = []\<rparr> \<and>
   length (filter known_truth result_mixed) = 1 \<and>
   pred_eval_report [(2, 9, 1, ''t1_a.jpg'')] =
     Inr \<lparr>four_buckets = True, conf_TN = [], conf_TP = [], conf_FN = [], conf_FP = [],
          itn = [], itp = [], ifn = [], ifp = []\<rparr> \<and>
   known_truth (2, 9, 1, ''t1_a.jpg'')"
  by (simp add: result_mixed_def report_defs)






section \<open>Properties of the evaluation loop\<close>

lemma take_drop_concat:
  "\<forall>r\<in>set rows. length r = k \<Longrightarrow> i < length rows \<Longrightarrow> take k (drop (i * k) (concat rows)) = rows ! i"
proof (induction rows arbitrary: i)
  case Nil
  then show ?case by simp
next
  case (Cons r rows)
  show ?case
  proof (cases i)
    case 0
    then show ?thesis using Cons.prems by simp
  next
    case (Suc j)
    then show ?thesis using Cons.prems Cons.IH [of j] by (simp add: add.commute)
  qed
qed

lemma length_concat_rows: "\<forall>r\<in>set rows. length r = k \<Longrightarrow> length (concat rows) = length rows * k"
  by (induction rows) simp_all

lemma py_view_concat:
  assumes "\<forall>r\<in>set rows. length r = k" "0 < k"
  shows "py_view k (concat rows) = Inr rows"
proof -
  have l: "length (concat rows) = length rows * k" using assms(1) by (rule length_concat_rows)
  have "map (\<lambda>i. take k (drop (i * k) (concat rows))) [0..<length rows] = rows"
    by (rule nth_equalityI) (simp_all add: take_drop_concat [OF assms(1)])
  then show ?thesis using assms(2) by (simp add: py_view_def l)
qed

lemma set_masked_rows: "set (masked_rows c tgt xs) \<subseteq> set xs"
  by (auto simp: masked_rows_def dest: set_zip_rightD)

lemma meter_update_other: "k' \<noteq> k \<Longrightarrow> meter_update k v n m k' = m k'"
  by (simp add: meter_update_def)

lemma meter_update_same:
  "meter_update k v n m k = Some ((case m k of None \<Rightarrow> [] | Some us \<Rightarrow> us) @ [(v, n)])"
  by (simp add: meter_update_def)

lemma per_class_metrics_total:
  assumes "\<forall>r\<in>set (output_scores b). length r = k" "0 < k"
  shows "\<exists>m'. per_class_metrics accuracy k b cs m = Inr m'"
proof (induction cs arbitrary: m)
  case Nil
  then show ?case by simp
next
  case (Cons c cs)
  obtain nm cid where c: "c = (nm, cid)" by (cases c)
  have "\<forall>r\<in>set (masked_rows cid (target b) (output_scores b)). length r = k"
    using assms(1) set_masked_rows [of cid "target b" "output_scores b"] by blast
  then have v: "py_view k (concat (masked_rows cid (target b) (output_scores b))) = Inr (masked_rows cid (target b) (output_scores b))"
    using assms(2) by (rule py_view_concat)
  show ?case using Cons.IH by (simp add: c v Let_def)
qed

lemma per_class_metrics_other:
  assumes "per_class_metrics accuracy k b cs m = Inr m'" "nm \<notin> fst ` set cs"
  shows "m' (''acc1_'' @ nm) = m (''acc1_'' @ nm) \<and> m' (''acc5_'' @ nm) = m (''acc5_'' @ nm)"
  using assms
proof (induction cs arbitrary: m)
  case Nil
  then show ?case by simp
next
  case (Cons c cs)
  obtain n1 cid where c: "c = (n1, cid)" by (cases c)
  have ne: "n1 \<noteq> nm" using Cons.prems(2) c by auto
  have nin: "nm \<notin> fst ` set cs" using Cons.prems(2) by auto
  show ?case
  proof (cases "0 < length (filter (\<lambda>t. t = cid) (target b))")
    case False
    then have "per_class_metrics accuracy k b cs m = Inr m'" using Cons.prems(1) by (simp add: c Let_def)
    then show ?thesis using Cons.IH nin by blast
  next
    case True
    then obtain oc where
      r: "per_class_metrics accuracy k b cs
            (meter_update (''acc5_'' @ n1) (Fin (snd (accuracy oc (filter (\<lambda>t. t = cid) (target b)))))
               (length (filter (\<lambda>t. t = cid) (target b)))
               (meter_update (''acc1_'' @ n1) (Fin (fst (accuracy oc (filter (\<lambda>t. t = cid) (target b)))))
                  (length (filter (\<lambda>t. t = cid) (target b))) m)) = Inr m'"
      using Cons.prems(1) by (auto simp: c Let_def split: sum.splits)
    from Cons.IH [OF r nin] show ?thesis using ne by (simp add: meter_update_other)
  qed
qed

lemma per_class_metrics_entry:
  assumes rows: "\<forall>r\<in>set (output_scores b). length r = k" and k: "0 < k"
    and dist: "distinct (map fst cs)" and mem: "(nm, cid) \<in> set cs"
    and res: "per_class_metrics accuracy k b cs m = Inr m'"
  shows "(cid \<notin> set (target b) \<longrightarrow>
            m' (''acc1_'' @ nm) = m (''acc1_'' @ nm) \<and> m' (''acc5_'' @ nm) = m (''acc5_'' @ nm)) \<and>
         (cid \<in> set (target b) \<longrightarrow>
            m' (''acc1_'' @ nm) =
              Some ((case m (''acc1_'' @ nm) of None \<Rightarrow> [] | Some us \<Rightarrow> us) @
                    [(Fin (fst (accuracy (masked_rows cid (target b) (output_scores b))
                                         (filter (\<lambda>t. t = cid) (target b)))),
                      length (filter (\<lambda>t. t = cid) (target b)))]) \<and>
            m' (''acc5_'' @ nm) =
              Some ((case m (''acc5_'' @ nm) of None \<Rightarrow> [] | Some us \<Rightarrow> us) @
                    [(Fin (snd (accuracy (masked_rows cid (target b) (output_scores b))
                                         (filter (\<lambda>t. t = cid) (target b)))),
                      length (filter (\<lambda>t. t = cid) (target b)))]))"
  using dist mem res
proof (induction cs arbitrary: m)
  case Nil
  then show ?case by simp
next
  case (Cons c cs)
  obtain n1 c1 where c: "c = (n1, c1)" by (cases c)
  have n1: "n1 \<notin> fst ` set cs" and d: "distinct (map fst cs)" using Cons.prems(1) c by auto
  have v: "py_view k (concat (masked_rows c1 (target b) (output_scores b))) = Inr (masked_rows c1 (target b) (output_scores b))"
  proof (rule py_view_concat [OF _ k])
    show "\<forall>r\<in>set (masked_rows c1 (target b) (output_scores b)). length r = k"
      using rows set_masked_rows [of c1 "target b" "output_scores b"] by blast
  qed
  let ?tc = "filter (\<lambda>t. t = c1) (target b)"
  let ?oc = "masked_rows c1 (target b) (output_scores b)"
  let ?m1 = "meter_update (''acc5_'' @ n1) (Fin (snd (accuracy ?oc ?tc))) (length ?tc)
               (meter_update (''acc1_'' @ n1) (Fin (fst (accuracy ?oc ?tc))) (length ?tc) m)"
  have pos: "(0 < length ?tc) = (c1 \<in> set (target b))"
    by (auto simp: filter_empty_conv)
  show ?case
  proof (cases "(nm, cid) = c")
    case True
    then have e: "n1 = nm" "c1 = cid" using c by simp_all
    show ?thesis
    proof (cases "cid \<in> set (target b)")
      case False
      then have "per_class_metrics accuracy k b cs m = Inr m'"
        using Cons.prems(3) pos by (simp add: c e Let_def)
      from per_class_metrics_other [OF this, of nm] n1 False show ?thesis by (simp add: e)
    next
      case True
      then have "per_class_metrics accuracy k b cs ?m1 = Inr m'"
        using Cons.prems(3) pos v by (simp add: c e Let_def)
      from per_class_metrics_other [OF this, of nm] n1 True show ?thesis
        by (simp add: e meter_update_same meter_update_other)
    qed
  next
    case False
    then have mem': "(nm, cid) \<in> set cs" using Cons.prems(2) by auto
    then have ne: "n1 \<noteq> nm" using n1 by force
    show ?thesis
    proof (cases "c1 \<in> set (target b)")
      case False
      then have "per_class_metrics accuracy k b cs m = Inr m'"
        using Cons.prems(3) pos by (simp add: c Let_def)
      from Cons.IH [OF d mem' this] show ?thesis .
    next
      case True
      then have "per_class_metrics accuracy k b cs ?m1 = Inr m'"
        using Cons.prems(3) pos v by (simp add: c Let_def)
      from Cons.IH [OF d mem' this] show ?thesis using ne by (simp add: meter_update_other)
    qed
  qed
qed

lemma masked_rows_indices:
  assumes "length xs = length tgt"
  shows "masked_rows c tgt xs = map ((!) xs) (filter (\<lambda>i. tgt ! i = c) [0..<length tgt])"
proof -
  let ?zs = "zip tgt xs"
  have n: "length ?zs = length tgt" using assms by simp
  have "masked_rows c tgt xs =
          map snd (map ((!) ?zs) (filter (\<lambda>i. (\<lambda>(t, x). t = c) (?zs ! i)) [0..<length ?zs]))"
    unfolding masked_rows_def by (subst filter_as_indices) (rule refl)
  also have "\<dots> = map (\<lambda>i. snd (?zs ! i)) (filter (\<lambda>i. fst (?zs ! i) = c) [0..<length tgt])"
    by (simp add: assms split_beta o_def)
  also have "filter (\<lambda>i. fst (?zs ! i) = c) [0..<length tgt] = filter (\<lambda>i. tgt ! i = c) [0..<length tgt]"
    by (rule filter_cong) (simp_all add: assms)
  also have "map (\<lambda>i. snd (?zs ! i)) (filter (\<lambda>i. tgt ! i = c) [0..<length tgt]) =
             map ((!) xs) (filter (\<lambda>i. tgt ! i = c) [0..<length tgt])"
    by (rule map_cong) (simp_all add: assms)
  finally show ?thesis .
qed

lemma filter_target_indices:
  "filter (\<lambda>t. t = c) tgt = map ((!) tgt) (filter (\<lambda>i. tgt ! i = c) [0..<length tgt])"
  by (rule filter_as_indices)

text \<open>
  C8: for a batch and a class of \<^verbatim>\<open>class_to_idx\<close>, the iteration succeeds; when no
  sample of the batch has the class, the meters \<open>acc1_<class>\<close> and \<open>acc5_<class>\<close> are
  left as they were (absent if they were absent: no entry, not a zero); when some sample has
  it, each receives one sample: the accuracy computed over the score rows and the labels at
  exactly the positions of the batch whose label is the class, weighted by the number of
  these positions.
\<close>

theorem per_class_accuracy_only_for_present_classes:
  assumes len: "length (output_scores b) = length (target b)"
    and rows: "\<forall>r\<in>set (output_scores b). length r = length class_to_idx"
    and dist: "distinct (map fst class_to_idx)"
    and mem: "(class_name, class_id) \<in> set class_to_idx"
  shows "\<exists>m'. evaluate_batch accuracy class_to_idx b m = Inr m' \<and>
         (class_id \<notin> set (target b) \<longrightarrow>
            m' (''acc1_'' @ class_name) = m (''acc1_'' @ class_name) \<and>
            m' (''acc5_'' @ class_name) = m (''acc5_'' @ class_name)) \<and>
         (class_id \<in> set (target b) \<longrightarrow>
            m' (''acc1_'' @ class_name) =
              Some ((case m (''acc1_'' @ class_name) of None \<Rightarrow> [] | Some us \<Rightarrow> us) @
                    [(Fin (fst (accuracy
                         (map ((!) (output_scores b))
                            (filter (\<lambda>i. target b ! i = class_id) [0..<length (target b)]))
                         (map ((!) (target b))
                            (filter (\<lambda>i. target b ! i = class_id) [0..<length (target b)])))),
                      length (filter (\<lambda>i. target b ! i = class_id) [0..<length (target b)]))]) \<and>
            m' (''acc5_'' @ class_name) =
              Some ((case m (''acc5_'' @ class_name) of None \<Rightarrow> [] | Some us \<Rightarrow> us) @
                    [(Fin (snd (accuracy
                         (map ((!) (output_scores b))
                            (filter (\<lambda>i. target b ! i = class_id) [0..<length (target b)]))
                         (map ((!) (target b))
                            (filter (\<lambda>i. target b ! i = class_id) [0..<length (target b)])))),
                      length (filter (\<lambda>i. target b ! i = class_id) [0..<length (target b)]))]))"
proof -
  let ?m3 = "meter_update ''acc5'' (Fin (snd (accuracy (output_scores b) (target b)))) (length (output_scores b))
              (meter_update ''acc1'' (Fin (fst (accuracy (output_scores b) (target b)))) (length (output_scores b))
                (meter_update ''loss'' (loss b) 1 m))"
  let ?idx = "filter (\<lambda>i. target b ! i = class_id) [0..<length (target b)]"
  have k: "0 < length class_to_idx" using mem by (cases class_to_idx) auto
  have eb: "evaluate_batch accuracy class_to_idx b m =
              per_class_metrics accuracy (length class_to_idx) b class_to_idx ?m3"
    using len by (simp add: evaluate_batch_def Let_def)
  obtain m' where r: "per_class_metrics accuracy (length class_to_idx) b class_to_idx ?m3 = Inr m'"
    using per_class_metrics_total [OF rows k] by blast
  have m3: "?m3 (''acc1_'' @ class_name) = m (''acc1_'' @ class_name)"
           "?m3 (''acc5_'' @ class_name) = m (''acc5_'' @ class_name)"
    by (simp_all add: meter_update_def)
  have mr: "masked_rows class_id (target b) (output_scores b) = map ((!) (output_scores b)) ?idx"
    by (rule masked_rows_indices [OF len])
  have ft: "filter (\<lambda>t. t = class_id) (target b) = map ((!) (target b)) ?idx"
    by (rule filter_target_indices)
  have fl: "length (filter (\<lambda>t. t = class_id) (target b)) = length ?idx"
    by (subst ft) simp
  note e = per_class_metrics_entry [OF rows k dist mem r, unfolded m3 mr fl]
  have e': "(class_id \<notin> set (target b) \<longrightarrow>
            m' (''acc1_'' @ class_name) = m (''acc1_'' @ class_name) \<and>
            m' (''acc5_'' @ class_name) = m (''acc5_'' @ class_name)) \<and>
         (class_id \<in> set (target b) \<longrightarrow>
            m' (''acc1_'' @ class_name) =
              Some ((case m (''acc1_'' @ class_name) of None \<Rightarrow> [] | Some us \<Rightarrow> us) @
                    [(Fin (fst (accuracy (map ((!) (output_scores b)) ?idx) (map ((!) (target b)) ?idx))),
                      length ?idx)]) \<and>
            m' (''acc5_'' @ class_name) =
              Some ((case m (''acc5_'' @ class_name) of None \<Rightarrow> [] | Some us \<Rightarrow> us) @
                    [(Fin (snd (accuracy (map ((!) (output_scores b)) ?idx) (map ((!) (target b)) ?idx))),
                      length ?idx)]))"
    using e by (simp only: ft [symmetric]) 
  show ?thesis unfolding eb r using e' by blast
qed

theorem per_class_accuracy_only_for_present_classes_witness:
  "\<not> isl (evaluate_batch accuracy_sums classes_ex batch_pos Map.empty) \<and>
   projr (evaluate_batch accuracy_sums classes_ex batch_pos Map.empty) ''acc1_neg'' = None \<and>
   projr (evaluate_batch accuracy_sums classes_ex batch_pos Map.empty) ''acc5_neg'' = None \<and>
   projr (evaluate_batch accuracy_sums classes_ex batch_pos Map.empty) ''acc1_pos'' = Some [(Fin 10, 2)] \<and>
   \<not> isl (evaluate_batch accuracy_sums classes_ex batch_mixed Map.empty) \<and>
   projr (evaluate_batch accuracy_sums classes_ex batch_mixed Map.empty) ''acc1_neg'' = Some [(Fin 6, 1)] \<and>
   projr (evaluate_batch accuracy_sums classes_ex batch_mixed Map.empty) ''acc5_neg'' = Some [(Fin 0, 1)] \<and>
   projr (evaluate_batch accuracy_sums classes_ex batch_mixed Map.empty) ''acc1_pos'' = Some [(Fin 15, 2)] \<and>
   projr (evaluate_batch accuracy_sums classes_ex batch_mixed Map.empty) ''acc5_pos'' = Some [(Fin 2, 2)]"
proof -
  have len: "length (output_scores batch_pos) = length (target batch_pos)"
    "length (output_scores batch_mixed) = length (target batch_mixed)"
    by (simp_all add: batch_pos_def batch_mixed_def)
  have rows: "\<forall>r\<in>set (output_scores batch_pos). length r = length classes_ex"
    "\<forall>r\<in>set (output_scores batch_mixed). length r = length classes_ex"
    by (simp_all add: batch_pos_def batch_mixed_def classes_ex_def)
  have dist: "distinct (map fst classes_ex)" by (simp add: classes_ex_def)
  have neg: "(''neg'', 0) \<in> set classes_ex" and pos: "(''pos'', 1) \<in> set classes_ex"
    by (simp_all add: classes_ex_def)
  have tp: "0 \<notin> set (target batch_pos)" "1 \<in> set (target batch_pos)"
    "filter (\<lambda>i. target batch_pos ! i = 1) [0..<length (target batch_pos)] = [0, 1]"
    "target batch_pos = [1, 1]" "output_scores batch_pos = [[1, 3], [4, 2]]"
    by (simp_all add: batch_pos_def)
  have tm: "0 \<in> set (target batch_mixed)" "1 \<in> set (target batch_mixed)"
    "filter (\<lambda>i. target batch_mixed ! i = 0) [0..<length (target batch_mixed)] = [1]"
    "filter (\<lambda>i. target batch_mixed ! i = 1) [0..<length (target batch_mixed)] = [0, 2]"
    "target batch_mixed = [1, 0, 1]" "output_scores batch_mixed = [[1, 3], [4, 2], [5, 6]]"
    by (simp_all add: batch_mixed_def)
  from per_class_accuracy_only_for_present_classes [OF len(1) rows(1) dist neg, of accuracy_sums Map.empty]
  obtain m1 where a: "evaluate_batch accuracy_sums classes_ex batch_pos Map.empty = Inr m1"
    and n: "m1 ''acc1_neg'' = None" "m1 ''acc5_neg'' = None"
    using tp(1) by auto
  from per_class_accuracy_only_for_present_classes [OF len(1) rows(1) dist pos, of accuracy_sums Map.empty]
  have p: "m1 ''acc1_pos'' = Some [(Fin 10, 2)]"
    using tp(2) a by (auto simp: tp(3) tp(4) tp(5) accuracy_sums_def)
  from per_class_accuracy_only_for_present_classes [OF len(2) rows(2) dist neg, of accuracy_sums Map.empty]
  obtain m2 where b: "evaluate_batch accuracy_sums classes_ex batch_mixed Map.empty = Inr m2"
    and n2: "m2 ''acc1_neg'' = Some [(Fin 6, 1)]" "m2 ''acc5_neg'' = Some [(Fin 0, 1)]"
    using tm(1) by (auto simp: tm(3) tm(5) tm(6) accuracy_sums_def)
  from per_class_accuracy_only_for_present_classes [OF len(2) rows(2) dist pos, of accuracy_sums Map.empty]
  have p2: "m2 ''acc1_pos'' = Some [(Fin 15, 2)]" "m2 ''acc5_pos'' = Some [(Fin 2, 2)]"
    using tm(2) b by (auto simp: tm(4) tm(5) tm(6) accuracy_sums_def)
  show ?thesis using a n p b n2 p2 by simp
qed
end
